theory Spec2Isabelle
  imports Main "HOL-Library.AList"
begin

section \<open>The policy record and the tuple codec\<close>

text \<open>
  The Go struct \<^verbatim>\<open>CasbinPolicy\<close>: an identity assigned by the storage engine, the rule
  type and six positional string slots. A Go string that was never assigned is the empty
  string, and a Go \<^verbatim>\<open>int64\<close> that was never assigned is 0.
\<close>

record CasbinPolicy =
  ID :: int
  PType :: string
  V0 :: string
  V1 :: string
  V2 :: string
  V3 :: string
  V4 :: string
  V5 :: string

text \<open>
  \<^verbatim>\<open>nonEmptyFields\<close>: the loop appends every field that is not the empty string to
  \<^verbatim>\<open>result\<close>, in order.
\<close>

fun nonEmptyFields_loop :: "string list \<Rightarrow> string list \<Rightarrow> string list" where
  "nonEmptyFields_loop [] result = result"
| "nonEmptyFields_loop (f # fs) result =
     nonEmptyFields_loop fs (if f \<noteq> [] then result @ [f] else result)"

definition nonEmptyFields :: "string list \<Rightarrow> string list" where
  "nonEmptyFields fs = nonEmptyFields_loop fs []"

definition toSlice :: "CasbinPolicy \<Rightarrow> string list" where
  "toSlice c = nonEmptyFields [PType c, V0 c, V1 c, V2 c, V3 c, V4 c, V5 c]"

definition filterValues :: "CasbinPolicy \<Rightarrow> string list" where
  "filterValues c = nonEmptyFields [V0 c, V1 c, V2 c, V3 c, V4 c, V5 c]"

text \<open>
  \<^verbatim>\<open>fmt.Sprintf("v%d", i)\<close>: the letter v followed by the decimal numeral of \<open>i\<close>.
\<close>

definition digit :: "nat \<Rightarrow> char" where
  "digit d = ''0123456789'' ! d"

function decimal :: "nat \<Rightarrow> string" where
  "decimal n = (if n < 10 then [digit n] else decimal (n div 10) @ [digit (n mod 10)])"
  by pat_completeness auto
termination
  by (relation "measure (\<lambda>n. n)") auto

declare decimal.simps [simp del]

definition sprintf_v :: "nat \<Rightarrow> string" where
  "sprintf_v i = CHR ''v'' # decimal i"

text \<open>
  \<^verbatim>\<open>filterValuesWithKey\<close>: a Go map from column name to value, holding the slots that
  are not empty. The map is an association list here; \<^verbatim>\<open>values[k] = v\<close> is
  \<^const>\<open>AList.update\<close>, which overwrites the entry of \<open>k\<close> when there is one and adds a
  new entry otherwise.
\<close>

fun filterValuesWithKey_loop ::
  "nat \<Rightarrow> string list \<Rightarrow> (string \<times> string) list \<Rightarrow> (string \<times> string) list" where
  "filterValuesWithKey_loop i [] values = values"
| "filterValuesWithKey_loop i (v # vs) values =
     filterValuesWithKey_loop (i + 1) vs
       (if v \<noteq> [] then AList.update (sprintf_v i) v values else values)"

definition filterValuesWithKey :: "CasbinPolicy \<Rightarrow> (string \<times> string) list" where
  "filterValuesWithKey c =
     filterValuesWithKey_loop 0 [V0 c, V1 c, V2 c, V3 c, V4 c, V5 c] []"

text \<open>
  \<^verbatim>\<open>newCasbinPolicy\<close>: the \<^verbatim>\<open>switch\<close> on the index has six cases and no default; the
  loop runs while \<^verbatim>\<open>i < len(rule) && i < 6\<close>. The function has no error result.
\<close>

definition newCasbinPolicy_switch :: "nat \<Rightarrow> string \<Rightarrow> CasbinPolicy \<Rightarrow> CasbinPolicy" where
  "newCasbinPolicy_switch i v c =
     (if i = 0 then c\<lparr>V0 := v\<rparr>
      else if i = 1 then c\<lparr>V1 := v\<rparr>
      else if i = 2 then c\<lparr>V2 := v\<rparr>
      else if i = 3 then c\<lparr>V3 := v\<rparr>
      else if i = 4 then c\<lparr>V4 := v\<rparr>
      else if i = 5 then c\<lparr>V5 := v\<rparr>
      else c)"

function newCasbinPolicy_loop :: "string list \<Rightarrow> nat \<Rightarrow> CasbinPolicy \<Rightarrow> CasbinPolicy" where
  "newCasbinPolicy_loop rule i c =
     (if i < length rule \<and> i < 6
      then newCasbinPolicy_loop rule (i + 1) (newCasbinPolicy_switch i (rule ! i) c)
      else c)"
  by pat_completeness auto
termination
  by (relation "measure (\<lambda>(rule, i, c). 6 - i)") auto

declare newCasbinPolicy_loop.simps [simp del]

definition newCasbinPolicy :: "string \<Rightarrow> string list \<Rightarrow> CasbinPolicy" where
  "newCasbinPolicy ptype rule =
     newCasbinPolicy_loop rule 0
       \<lparr>ID = 0, PType = ptype, V0 = [], V1 = [], V2 = [], V3 = [], V4 = [], V5 = []\<rparr>"

text \<open>The six slots of a record, by position; positions from 6 on do not exist.\<close>

definition slot :: "nat \<Rightarrow> CasbinPolicy \<Rightarrow> string" where
  "slot k c = [V0 c, V1 c, V2 c, V3 c, V4 c, V5 c] ! k"

definition slots :: "CasbinPolicy \<Rightarrow> string list" where
  "slots c = [V0 c, V1 c, V2 c, V3 c, V4 c, V5 c]"

section \<open>Queries\<close>

text \<open>
  The adapter builds every filter by chaining \<^verbatim>\<open>Where(text, args...)\<close> calls on a bun
  query; bun joins the clauses of one query with AND. The adapter produces two texts only:
  \<^verbatim>\<open>col + " = ?"\<close> (also written \<^verbatim>\<open>"ptype = ?"\<close> and
  \<^verbatim>\<open>fmt.Sprintf("%s = ?", key)\<close>), here \<open>EqParam col\<close>, and \<^verbatim>\<open>col + " LIKE '%'"\<close>,
  here \<open>LikeAny col\<close>. A clause is the text with its arguments, a query the list of its
  clauses in the order of the calls.
\<close>

datatype condition = EqParam string | LikeAny string

type_synonym where_clause = "condition \<times> string list"

type_synonym query = "where_clause list"

definition Where :: "query \<Rightarrow> condition \<Rightarrow> string list \<Rightarrow> query" where
  "Where q cond args = q @ [(cond, args)]"

text \<open>The columns of the table, from the struct tags of \<^verbatim>\<open>CasbinPolicy\<close>.\<close>

definition column :: "string \<Rightarrow> CasbinPolicy \<Rightarrow> string option" where
  "column name r =
     map_of [(''ptype'', PType r), (''v0'', V0 r), (''v1'', V1 r), (''v2'', V2 r),
             (''v3'', V3 r), (''v4'', V4 r), (''v5'', V5 r)] name"

text \<open>
  What a clause means on a row. \<^verbatim>\<open>col = ?\<close> with one argument compares the column with
  the argument. \<^verbatim>\<open>col LIKE '%'\<close> has no placeholder, so its arguments are not used; the
  columns hold Go strings, never NULL, and every string matches the pattern. A clause
  on a column that does not exist, or with a number of arguments that does not fit, holds
  of no row (the adapter builds none).
\<close>

fun holds :: "where_clause \<Rightarrow> CasbinPolicy \<Rightarrow> bool" where
  "holds (EqParam col, args) r = (case args of [v] \<Rightarrow> column col r = Some v | _ \<Rightarrow> False)"
| "holds (LikeAny col, args) r = (column col r \<noteq> None)"

definition matches :: "query \<Rightarrow> CasbinPolicy \<Rightarrow> bool" where
  "matches q r = list_all (\<lambda>w. holds w r) q"

section \<open>The storage engine\<close>

text \<open>
  The relational engine and bun are outside the repository. They are modelled by what the
  adapter relies on: one table \<^verbatim>\<open>casbin_policies\<close> (a list of rows and the next
  identity to hand out), the unique index over \<^verbatim>\<open>(ptype, v0, ..., v5)\<close> that
  \<^verbatim>\<open>createTable\<close> creates, statements that either take effect as a whole or fail and
  change nothing, and transactions that work on a private copy which \<^verbatim>\<open>Commit\<close>
  installs and \<^verbatim>\<open>Rollback\<close> throws away.

  Every call into the engine can also fail for a reason outside the adapter (connection
  loss, cancellation, deadline). Each operation therefore takes a fault script
  \<open>flt\<close>: \<open>flt k\<close> is the failure, if any, that strikes the \<open>k\<close>-th call the
  operation makes into the engine.
\<close>

datatype db_error =
    UniqueViolation
  | EmptyInsert
  | AlreadyExists string
  | NoSuchTable string
  | Fault nat
  | Join "db_error list"

record db =
  rows :: "CasbinPolicy list"
  next_id :: int

type_synonym faults = "nat \<Rightarrow> db_error option"

definition no_faults :: faults where
  "no_faults k = None"

definition unique_key :: "CasbinPolicy \<Rightarrow> string list" where
  "unique_key r = [PType r, V0 r, V1 r, V2 r, V3 r, V4 r, V5 r]"

text \<open>
  \<^verbatim>\<open>NewInsert().Model(&policies).Exec\<close>: one INSERT statement for the whole slice. For
  an empty slice bun reports an error and sends no statement (no result below depends
  on whether it does: the table is the same either way). The identity column is filled in
  by the engine (the adapter only inserts records made by \<^verbatim>\<open>newCasbinPolicy\<close>, whose
  \<^verbatim>\<open>ID\<close> is 0). The statement is rejected as a whole when the table would hold two
  rows with the same unique key.
\<close>

fun assign_ids :: "int \<Rightarrow> CasbinPolicy list \<Rightarrow> CasbinPolicy list" where
  "assign_ids n [] = []"
| "assign_ids n (p # ps) = p\<lparr>ID := n\<rparr> # assign_ids (n + 1) ps"

definition Insert_Exec :: "db_error option \<Rightarrow> CasbinPolicy list \<Rightarrow> db \<Rightarrow> db_error + db" where
  "Insert_Exec fault policies d =
     (case fault of
        Some e \<Rightarrow> Inl e
      | None \<Rightarrow>
          if policies = [] then Inl EmptyInsert
          else if distinct (map unique_key (rows d @ policies))
          then Inr (d\<lparr>rows := rows d @ assign_ids (next_id d) policies,
                      next_id := next_id d + int (length policies)\<rparr>)
          else Inl UniqueViolation)"

text \<open>\<^verbatim>\<open>NewDelete().Model(...).Where(...).Exec\<close>: deletes every row the query matches.\<close>

definition Delete_Exec :: "db_error option \<Rightarrow> query \<Rightarrow> db \<Rightarrow> db_error + db" where
  "Delete_Exec fault q d =
     (case fault of
        Some e \<Rightarrow> Inl e
      | None \<Rightarrow> Inr (d\<lparr>rows := filter (\<lambda>r. \<not> matches q r) (rows d)\<rparr>))"

text \<open>\<^verbatim>\<open>NewSelect().Model(&policies).Where(...).Scan\<close>: the rows the query matches.\<close>

definition Select_Scan :: "db_error option \<Rightarrow> query \<Rightarrow> db \<Rightarrow> db_error + CasbinPolicy list" where
  "Select_Scan fault q d =
     (case fault of
        Some e \<Rightarrow> Inl e
      | None \<Rightarrow> Inr (filter (matches q) (rows d)))"

text \<open>
  \<^verbatim>\<open>NewUpdate().Model(&newPolicy).Where(...).Exec\<close>: sets every column except the
  primary key, on every row the query matches, to the value the model holds.
\<close>

definition set_columns :: "CasbinPolicy \<Rightarrow> CasbinPolicy \<Rightarrow> CasbinPolicy" where
  "set_columns newPolicy r =
     r\<lparr>PType := PType newPolicy, V0 := V0 newPolicy, V1 := V1 newPolicy, V2 := V2 newPolicy,
       V3 := V3 newPolicy, V4 := V4 newPolicy, V5 := V5 newPolicy\<rparr>"

definition Update_Exec :: "db_error option \<Rightarrow> CasbinPolicy \<Rightarrow> query \<Rightarrow> db \<Rightarrow> db_error + db" where
  "Update_Exec fault newPolicy q d =
     (case fault of
        Some e \<Rightarrow> Inl e
      | None \<Rightarrow>
          let rows' = map (\<lambda>r. if matches q r then set_columns newPolicy r else r) (rows d)
          in if distinct (map unique_key rows') then Inr (d\<lparr>rows := rows'\<rparr>)
             else Inl UniqueViolation)"

text \<open>\<^verbatim>\<open>NewTruncateTable().Model(...).Exec\<close>: removes every row.\<close>

definition Truncate_Exec :: "db_error option \<Rightarrow> db \<Rightarrow> db_error + db" where
  "Truncate_Exec fault d =
     (case fault of
        Some e \<Rightarrow> Inl e
      | None \<Rightarrow> Inr (d\<lparr>rows := []\<rparr>))"

text \<open>
  Transactions. \<^verbatim>\<open>BeginTx\<close> hands out a private copy of the table; \<^verbatim>\<open>Commit\<close> takes
  the committed table and the copy and installs the copy unless it fails; \<^verbatim>\<open>Rollback\<close>
  keeps the committed table whether or not it reports an error.
\<close>

definition BeginTx :: "db_error option \<Rightarrow> 's \<Rightarrow> db_error + 's" where
  "BeginTx fault d = (case fault of Some e \<Rightarrow> Inl e | None \<Rightarrow> Inr d)"

definition Commit :: "db_error option \<Rightarrow> 's \<Rightarrow> 's \<Rightarrow> db_error option \<times> 's" where
  "Commit fault d tx = (case fault of Some e \<Rightarrow> (Some e, d) | None \<Rightarrow> (None, tx))"

definition Rollback :: "db_error option \<Rightarrow> 's \<Rightarrow> 's \<Rightarrow> db_error option \<times> 's" where
  "Rollback fault d tx = (fault, d)"

text \<open>
  What a Go function of the adapter does: it returns an error value (\<^verbatim>\<open>nil\<close> is
  \<open>None\<close>) or it panics.
\<close>

datatype outcome = Returned "db_error option" | Panicked

text \<open>
  bun's \<^verbatim>\<open>RunInTx\<close>: begin, run the function on the transaction, roll back when it
  returns an error or panics (the error of that rollback is dropped), commit otherwise.
\<close>

definition RunInTx ::
  "db_error option \<Rightarrow> db_error option \<Rightarrow> (db \<Rightarrow> outcome \<times> db) \<Rightarrow> db \<Rightarrow> outcome \<times> db" where
  "RunInTx begin_fault commit_fault fn d =
     (case BeginTx begin_fault d of
        Inl e \<Rightarrow> (Returned (Some e), d)
      | Inr tx \<Rightarrow>
          (case fn tx of
             (Panicked, tx') \<Rightarrow> (Panicked, snd (Rollback None d tx'))
           | (Returned (Some e), tx') \<Rightarrow> (Returned (Some e), snd (Rollback None d tx'))
           | (Returned None, tx') \<Rightarrow>
               (case Commit commit_fault d tx' of (err, d') \<Rightarrow> (Returned err, d'))))"

section \<open>The adapter: save, add, remove\<close>

text \<open>
  Every operation takes the fault script and the table and returns what the Go function
  returns together with the table afterwards.

  The casbin model is a Go map from section (\<^verbatim>\<open>"p"\<close>, \<^verbatim>\<open>"g"\<close>) to a map from rule
  type to an assertion whose \<^verbatim>\<open>Policy\<close> is a list of rules. Both maps are association
  lists here, read in the order in which the Go runtime happens to range over them; a
  section that is missing ranges over nothing.
\<close>

type_synonym assertion_map = "(string \<times> string list list) list"

type_synonym model = "(string \<times> assertion_map) list"

definition model_section :: "model \<Rightarrow> string \<Rightarrow> assertion_map" where
  "model_section m sec = (case map_of m sec of None \<Rightarrow> [] | Some am \<Rightarrow> am)"

definition refreshTable :: "db_error option \<Rightarrow> db \<Rightarrow> db_error option \<times> db" where
  "refreshTable fault d =
     (case Truncate_Exec fault d of Inl e \<Rightarrow> (Some e, d) | Inr d' \<Rightarrow> (None, d'))"

definition savePolicyRecords :: "faults \<Rightarrow> db \<Rightarrow> CasbinPolicy list \<Rightarrow> db_error option \<times> db" where
  "savePolicyRecords flt d policies =
     (case refreshTable (flt 0) d of
        (Some e, d') \<Rightarrow> (Some e, d')
      | (None, d') \<Rightarrow>
          (case Insert_Exec (flt 1) policies d' of
             Inl e \<Rightarrow> (Some e, d')
           | Inr d'' \<Rightarrow> (None, d'')))"

definition SavePolicy_records :: "model \<Rightarrow> CasbinPolicy list" where
  "SavePolicy_records m =
     concat (map (\<lambda>(ptype, policy). map (newCasbinPolicy ptype) policy) (model_section m ''p''))
     @ concat (map (\<lambda>(gtype, policy). map (newCasbinPolicy gtype) policy) (model_section m ''g''))"

definition SavePolicyCtx :: "faults \<Rightarrow> db \<Rightarrow> model \<Rightarrow> db_error option \<times> db" where
  "SavePolicyCtx flt d m = savePolicyRecords flt d (SavePolicy_records m)"

definition AddPolicyCtx :: "faults \<Rightarrow> db \<Rightarrow> string \<Rightarrow> string list \<Rightarrow> db_error option \<times> db" where
  "AddPolicyCtx flt d ptype rule =
     (case Insert_Exec (flt 0) [newCasbinPolicy ptype rule] d of
        Inl e \<Rightarrow> (Some e, d)
      | Inr d' \<Rightarrow> (None, d'))"

definition AddPoliciesCtx ::
  "faults \<Rightarrow> db \<Rightarrow> string \<Rightarrow> string list list \<Rightarrow> db_error option \<times> db" where
  "AddPoliciesCtx flt d ptype rules =
     (case Insert_Exec (flt 0) (map (newCasbinPolicy ptype) rules) d of
        Inl e \<Rightarrow> (Some e, d)
      | Inr d' \<Rightarrow> (None, d'))"

text \<open>
  \<^verbatim>\<open>delete\<close> ranges over the keyed values and adds one \<^verbatim>\<open>key = ?\<close> clause for each
  entry, then executes the query. Go does not fix the order in which it ranges over a map;
  the association list is read front to back, and \<open>matches\<close> does not depend on the
  order of the clauses (lemma \<open>matches_set_cong\<close> below).
\<close>

fun delete_loop :: "(string \<times> string) list \<Rightarrow> query \<Rightarrow> query" where
  "delete_loop [] query = query"
| "delete_loop ((key, v) # values) query = delete_loop values (Where query (EqParam key) [v])"

definition delete :: "db_error option \<Rightarrow> db \<Rightarrow> query \<Rightarrow> (string \<times> string) list \<Rightarrow> db_error option \<times> db" where
  "delete fault d query values =
     (case Delete_Exec fault (delete_loop values query) d of
        Inl e \<Rightarrow> (Some e, d)
      | Inr d' \<Rightarrow> (None, d'))"

definition deleteRecord_query :: "CasbinPolicy \<Rightarrow> query" where
  "deleteRecord_query existingPolicy =
     delete_loop (filterValuesWithKey existingPolicy)
       (Where [] (EqParam ''ptype'') [PType existingPolicy])"

definition deleteRecord :: "db_error option \<Rightarrow> db \<Rightarrow> CasbinPolicy \<Rightarrow> db_error option \<times> db" where
  "deleteRecord fault d existingPolicy =
     delete fault d (Where [] (EqParam ''ptype'') [PType existingPolicy])
       (filterValuesWithKey existingPolicy)"

text \<open>The same on a transaction: the table is the private copy of the transaction.\<close>

definition deleteRecordInTx :: "db_error option \<Rightarrow> db \<Rightarrow> CasbinPolicy \<Rightarrow> db_error option \<times> db" where
  "deleteRecordInTx fault tx existingPolicy =
     delete fault tx (Where [] (EqParam ''ptype'') [PType existingPolicy])
       (filterValuesWithKey existingPolicy)"

definition RemovePolicyCtx :: "faults \<Rightarrow> db \<Rightarrow> string \<Rightarrow> string list \<Rightarrow> db_error option \<times> db" where
  "RemovePolicyCtx flt d ptype rule =
     (case deleteRecord (flt 0) d (newCasbinPolicy ptype rule) of
        (Some e, d') \<Rightarrow> (Some e, d')
      | (None, d') \<Rightarrow> (None, d'))"

text \<open>
  \<^verbatim>\<open>RemovePoliciesCtx\<close>: call 0 is the begin of the transaction, call \<open>k\<close> the delete
  of the \<open>k\<close>-th rule, and the call after the last delete is the commit.
\<close>

fun RemovePolicies_loop ::
  "faults \<Rightarrow> nat \<Rightarrow> string \<Rightarrow> string list list \<Rightarrow> db \<Rightarrow> outcome \<times> db" where
  "RemovePolicies_loop flt k ptype [] tx = (Returned None, tx)"
| "RemovePolicies_loop flt k ptype (rule # rules) tx =
     (case deleteRecordInTx (flt k) tx (newCasbinPolicy ptype rule) of
        (Some e, tx') \<Rightarrow> (Returned (Some e), tx')
      | (None, tx') \<Rightarrow> RemovePolicies_loop flt (k + 1) ptype rules tx')"

definition RemovePoliciesCtx ::
  "faults \<Rightarrow> db \<Rightarrow> string \<Rightarrow> string list list \<Rightarrow> outcome \<times> db" where
  "RemovePoliciesCtx flt d ptype rules =
     RunInTx (flt 0) (flt (length rules + 1)) (RemovePolicies_loop flt 1 ptype rules) d"

section \<open>The adapter: filtered delete\<close>

text \<open>
  \<^verbatim>\<open>deleteFilteredPolicy\<close>. \<^verbatim>\<open>fieldIndex\<close> is a Go \<^verbatim>\<open>int\<close> and may be negative. The
  sum \<^verbatim>\<open>fieldIndex+len(fieldValues)\<close> is evaluated only when \<^verbatim>\<open>fieldIndex > n\<close> is
  false, that is when \<^verbatim>\<open>fieldIndex\<close> is at most 5, so it does not wrap around and the
  unbounded integers give the same result. When the guard lets the body run, the index
  \<^verbatim>\<open>n-fieldIndex\<close> is within the slice (lemma \<open>filter_index_in_range\<close> below).
\<close>

function deleteFilteredPolicy_loop :: "int \<Rightarrow> string list \<Rightarrow> nat \<Rightarrow> query \<Rightarrow> query" where
  "deleteFilteredPolicy_loop fieldIndex fieldValues n query =
     (if n \<le> 5 then
        if fieldIndex > int n \<or> int n \<ge> fieldIndex + int (length fieldValues)
        then deleteFilteredPolicy_loop fieldIndex fieldValues (n + 1) query
        else
          let v = fieldValues ! nat (int n - fieldIndex);
              col = sprintf_v n
          in deleteFilteredPolicy_loop fieldIndex fieldValues (n + 1)
               (if v = [] then Where query (LikeAny col) []
                else Where query (EqParam col) [v])
      else query)"
  by pat_completeness auto
termination
  by (relation "measure (\<lambda>(fieldIndex, fieldValues, n, query). 6 - n)") auto

declare deleteFilteredPolicy_loop.simps [simp del]

definition deleteFilteredPolicy_query :: "string \<Rightarrow> int \<Rightarrow> string list \<Rightarrow> query" where
  "deleteFilteredPolicy_query ptype fieldIndex fieldValues =
     deleteFilteredPolicy_loop fieldIndex fieldValues 0 (Where [] (EqParam ''ptype'') [ptype])"

definition deleteFilteredPolicy ::
  "faults \<Rightarrow> db \<Rightarrow> string \<Rightarrow> int \<Rightarrow> string list \<Rightarrow> db_error option \<times> db" where
  "deleteFilteredPolicy flt d ptype fieldIndex fieldValues =
     (case Delete_Exec (flt 0) (deleteFilteredPolicy_query ptype fieldIndex fieldValues) d of
        Inl e \<Rightarrow> (Some e, d)
      | Inr d' \<Rightarrow> (None, d'))"

definition RemoveFilteredPolicyCtx ::
  "faults \<Rightarrow> db \<Rightarrow> string \<Rightarrow> int \<Rightarrow> string list \<Rightarrow> db_error option \<times> db" where
  "RemoveFilteredPolicyCtx flt d ptype fieldIndex fieldValues =
     deleteFilteredPolicy flt d ptype fieldIndex fieldValues"

section \<open>The adapter: update\<close>

text \<open>
  \<^verbatim>\<open>update\<close> adds one \<^verbatim>\<open>key = ?\<close> clause for each keyed value of the old record (the
  same loop as in \<^verbatim>\<open>delete\<close>) and executes the UPDATE whose model is the new record.
\<close>

fun update_loop :: "(string \<times> string) list \<Rightarrow> query \<Rightarrow> query" where
  "update_loop [] query = query"
| "update_loop ((key, v) # values) query = update_loop values (Where query (EqParam key) [v])"

definition update ::
  "db_error option \<Rightarrow> db \<Rightarrow> CasbinPolicy \<Rightarrow> query \<Rightarrow> (string \<times> string) list
     \<Rightarrow> db_error option \<times> db" where
  "update fault d newPolicy query values =
     (case Update_Exec fault newPolicy (update_loop values query) d of
        Inl e \<Rightarrow> (Some e, d)
      | Inr d' \<Rightarrow> (None, d'))"

definition updateRecord ::
  "db_error option \<Rightarrow> db \<Rightarrow> CasbinPolicy \<Rightarrow> CasbinPolicy \<Rightarrow> db_error option \<times> db" where
  "updateRecord fault d oldPolicy newPolicy =
     update fault d newPolicy (Where [] (EqParam ''ptype'') [PType oldPolicy])
       (filterValuesWithKey oldPolicy)"

definition updateRecordInTx ::
  "db_error option \<Rightarrow> db \<Rightarrow> CasbinPolicy \<Rightarrow> CasbinPolicy \<Rightarrow> db_error option \<times> db" where
  "updateRecordInTx fault tx oldPolicy newPolicy =
     update fault tx newPolicy (Where [] (EqParam ''ptype'') [PType oldPolicy])
       (filterValuesWithKey oldPolicy)"

definition UpdatePolicyCtx ::
  "faults \<Rightarrow> db \<Rightarrow> string \<Rightarrow> string list \<Rightarrow> string list \<Rightarrow> db_error option \<times> db" where
  "UpdatePolicyCtx flt d ptype oldRule newRule =
     updateRecord (flt 0) d (newCasbinPolicy ptype oldRule) (newCasbinPolicy ptype newRule)"

text \<open>
  \<^verbatim>\<open>UpdatePoliciesCtx\<close>: the loop ranges over the indices of \<^verbatim>\<open>oldPolicies\<close> and reads
  \<^verbatim>\<open>oldPolicies[i]\<close> and \<^verbatim>\<open>newPolicies[i]\<close>. Go checks every index: reading
  \<^verbatim>\<open>newPolicies[i]\<close> with \<^verbatim>\<open>i >= len(newPolicies)\<close> panics. Call 0 is the begin of
  the transaction, call \<open>i + 1\<close> the update of pair \<open>i\<close>, the call after the last update
  the commit.
\<close>

function UpdatePolicies_loop ::
  "faults \<Rightarrow> CasbinPolicy list \<Rightarrow> CasbinPolicy list \<Rightarrow> nat \<Rightarrow> db \<Rightarrow> outcome \<times> db" where
  "UpdatePolicies_loop flt oldPolicies newPolicies i tx =
     (if i < length oldPolicies then
        if i < length newPolicies then
          (case updateRecordInTx (flt (i + 1)) tx (oldPolicies ! i) (newPolicies ! i) of
             (Some e, tx') \<Rightarrow> (Returned (Some e), tx')
           | (None, tx') \<Rightarrow> UpdatePolicies_loop flt oldPolicies newPolicies (i + 1) tx')
        else (Panicked, tx)
      else (Returned None, tx))"
  by pat_completeness auto
termination
  by (relation "measure (\<lambda>(flt, oldPolicies, newPolicies, i, tx). length oldPolicies - i)") auto

declare UpdatePolicies_loop.simps [simp del]

definition UpdatePoliciesCtx ::
  "faults \<Rightarrow> db \<Rightarrow> string \<Rightarrow> string list list \<Rightarrow> string list list \<Rightarrow> outcome \<times> db" where
  "UpdatePoliciesCtx flt d ptype oldRules newRules =
     (let oldPolicies = map (newCasbinPolicy ptype) oldRules;
          newPolicies = map (newCasbinPolicy ptype) newRules
      in RunInTx (flt 0) (flt (length oldPolicies + 1))
           (UpdatePolicies_loop flt oldPolicies newPolicies 0) d)"

section \<open>The adapter: filtered replace\<close>

text \<open>
  \<^verbatim>\<open>UpdateFilteredPoliciesCtx\<close>. The loop adds the same clause to the select and to the
  delete query: the text is \<^verbatim>\<open>col LIKE '%'\<close> unless the value is not empty, and the value
  is passed as the argument in both cases. Calls into the engine: 0 begin, 1 select,
  2 delete, 3 insert, 4 commit; the rollback after a failed call \<open>k\<close> is call \<open>k + 1\<close>.
  The Go function returns a pair: the removed rules (\<^verbatim>\<open>nil\<close> is \<open>None\<close>) and an error.
\<close>

function UpdateFilteredPolicies_loop ::
  "int \<Rightarrow> string list \<Rightarrow> nat \<Rightarrow> query \<times> query \<Rightarrow> query \<times> query" where
  "UpdateFilteredPolicies_loop fieldIndex fieldValues n (selectQuery, deleteQuery) =
     (if n \<le> 5 then
        if fieldIndex > int n \<or> int n \<ge> fieldIndex + int (length fieldValues)
        then UpdateFilteredPolicies_loop fieldIndex fieldValues (n + 1) (selectQuery, deleteQuery)
        else
          let v = fieldValues ! nat (int n - fieldIndex);
              col = sprintf_v n;
              cond = (if v \<noteq> [] then EqParam col else LikeAny col)
          in UpdateFilteredPolicies_loop fieldIndex fieldValues (n + 1)
               (Where selectQuery cond [v], Where deleteQuery cond [v])
      else (selectQuery, deleteQuery))"
  by pat_completeness auto
termination
  by (relation "measure (\<lambda>(fieldIndex, fieldValues, n, qs). 6 - n)") auto

declare UpdateFilteredPolicies_loop.simps [simp del]

definition UpdateFilteredPolicies_queries :: "string \<Rightarrow> int \<Rightarrow> string list \<Rightarrow> query \<times> query" where
  "UpdateFilteredPolicies_queries ptype fieldIndex fieldValues =
     UpdateFilteredPolicies_loop fieldIndex fieldValues 0
       (Where [] (EqParam ''ptype'') [ptype], Where [] (EqParam ''ptype'') [ptype])"

text \<open>
  The error returned after a failed call: the error of the rollback when the rollback
  fails too, the error of the call otherwise.
\<close>

definition rollback_and_return ::
  "db_error option \<Rightarrow> db \<Rightarrow> db \<Rightarrow> db_error \<Rightarrow> (string list list option \<times> db_error option) \<times> db" where
  "rollback_and_return fault d tx err =
     (case Rollback fault d tx of
        (Some err', d') \<Rightarrow> ((None, Some err'), d')
      | (None, d') \<Rightarrow> ((None, Some err), d'))"

definition UpdateFilteredPoliciesCtx ::
  "faults \<Rightarrow> db \<Rightarrow> string \<Rightarrow> string list list \<Rightarrow> int \<Rightarrow> string list
     \<Rightarrow> (string list list option \<times> db_error option) \<times> db" where
  "UpdateFilteredPoliciesCtx flt d ptype newRules fieldIndex fieldValues =
     (let newPolicies = map (newCasbinPolicy ptype) newRules in
      case BeginTx (flt 0) d of
        Inl err \<Rightarrow> ((None, Some err), d)
      | Inr tx \<Rightarrow>
          (case UpdateFilteredPolicies_queries ptype fieldIndex fieldValues of
             (selectQuery, deleteQuery) \<Rightarrow>
               (case Select_Scan (flt 1) selectQuery tx of
                  Inl err \<Rightarrow> rollback_and_return (flt 2) d tx err
                | Inr oldPolicies \<Rightarrow>
                    (case Delete_Exec (flt 2) deleteQuery tx of
                       Inl err \<Rightarrow> rollback_and_return (flt 3) d tx err
                     | Inr tx' \<Rightarrow>
                         (case Insert_Exec (flt 3) newPolicies tx' of
                            Inl err \<Rightarrow> rollback_and_return (flt 4) d tx' err
                          | Inr tx'' \<Rightarrow>
                              (let out = map toSlice oldPolicies in
                               case Commit (flt 4) d tx'' of
                                 (err, d') \<Rightarrow> ((Some out, err), d')))))))"

section \<open>Table bootstrap\<close>

text \<open>
  The schema of the database: the names of its tables and of its indexes.
  \<^verbatim>\<open>NewCreateTable().Model(...).IfNotExists().Exec\<close> issues
  \<^verbatim>\<open>CREATE TABLE IF NOT EXISTS\<close>, which does nothing when the table exists. The two
  raw statements are \<^verbatim>\<open>CREATE UNIQUE INDEX unique_casbin_policy on casbin_policies (...)\<close>
  and \<^verbatim>\<open>CREATE INDEX idx_casbin_ptype ON casbin_policies (ptype)\<close>, without
  \<^verbatim>\<open>IF NOT EXISTS\<close>: the engine rejects them when an index of that name exists.
\<close>

record schema =
  tables :: "string list"
  indexes :: "string list"

definition CreateTable_IfNotExists :: "db_error option \<Rightarrow> string \<Rightarrow> schema \<Rightarrow> db_error + schema" where
  "CreateTable_IfNotExists fault name s =
     (case fault of
        Some e \<Rightarrow> Inl e
      | None \<Rightarrow> if name \<in> set (tables s) then Inr s else Inr (s\<lparr>tables := tables s @ [name]\<rparr>))"

definition CreateIndex :: "db_error option \<Rightarrow> string \<Rightarrow> string \<Rightarrow> schema \<Rightarrow> db_error + schema" where
  "CreateIndex fault name tbl s =
     (case fault of
        Some e \<Rightarrow> Inl e
      | None \<Rightarrow>
          if tbl \<notin> set (tables s) then Inl (NoSuchTable tbl)
          else if name \<in> set (indexes s) then Inl (AlreadyExists name)
          else Inr (s\<lparr>indexes := indexes s @ [name]\<rparr>))"

text \<open>\<^verbatim>\<open>errors.Join\<close> drops the nil errors and is nil when nothing is left.\<close>

definition errors_Join :: "db_error option list \<Rightarrow> db_error option" where
  "errors_Join errs =
     (case List.map_filter (\<lambda>e. e) errs of [] \<Rightarrow> None | es \<Rightarrow> Some (Join es))"

text \<open>
  \<^verbatim>\<open>createTable\<close>. Calls into the engine: 0 begin, 1 create table, 2 unique index,
  3 index on ptype, 4 commit; the rollback after a failed call \<open>k\<close> is call \<open>k + 1\<close>.
\<close>

definition createTable :: "faults \<Rightarrow> schema \<Rightarrow> db_error option \<times> schema" where
  "createTable flt s =
     (case BeginTx (flt 0) s of
        Inl err \<Rightarrow> (Some err, s)
      | Inr tx \<Rightarrow>
          (case CreateTable_IfNotExists (flt 1) ''casbin_policies'' tx of
             Inl err \<Rightarrow>
               (case Rollback (flt 2) s tx of (rerr, s') \<Rightarrow> (errors_Join [Some err, rerr], s'))
           | Inr tx1 \<Rightarrow>
               (case CreateIndex (flt 2) ''unique_casbin_policy'' ''casbin_policies'' tx1 of
                  Inl err \<Rightarrow>
                    (case Rollback (flt 3) s tx1 of
                       (rerr, s') \<Rightarrow> (errors_Join [Some err, rerr], s'))
                | Inr tx2 \<Rightarrow>
                    (case CreateIndex (flt 3) ''idx_casbin_ptype'' ''casbin_policies'' tx2 of
                       Inl err \<Rightarrow>
                         (case Rollback (flt 4) s tx2 of
                            (rerr, s') \<Rightarrow> (errors_Join [Some err, rerr], s'))
                     | Inr tx3 \<Rightarrow> Commit (flt 4) s tx3))))"

text \<open>
  \<^verbatim>\<open>NewAdapter\<close>: the options are applied to a fresh adapter, then the table is created
  unless an option disabled it. The result is the adapter (\<^verbatim>\<open>nil\<close> is \<open>None\<close>) and an
  error. The finalizer that closes the connection when the adapter is collected does
  not touch the schema and is left out.
\<close>

record Adapter =
  notCreateTables :: bool

definition DisableAutoCreateTable :: "Adapter \<Rightarrow> Adapter" where
  "DisableAutoCreateTable a = a\<lparr>notCreateTables := True\<rparr>"

definition NewAdapter ::
  "faults \<Rightarrow> schema \<Rightarrow> (Adapter \<Rightarrow> Adapter) list \<Rightarrow> (Adapter option \<times> db_error option) \<times> schema" where
  "NewAdapter flt s opts =
     (let b = fold (\<lambda>opt a. opt a) opts \<lparr>notCreateTables = False\<rparr> in
      if \<not> notCreateTables b then
        (case createTable flt s of
           (Some err, s') \<Rightarrow> ((None, Some err), s')
         | (None, s') \<Rightarrow> ((Some b, None), s'))
      else ((Some b, None), s))"

section \<open>The filter predicate in the words of the specification\<close>

text \<open>
  What the specification says a filter built from \<open>field_index\<close> and \<open>values\<close> does
  with slot position \<open>n\<close>: nothing when \<open>n\<close> lies outside the window of the values, a
  condition that matches anything when the value for the slot is the empty string, exact
  equality with the value otherwise.
\<close>

datatype slot_constraint = Unconstrained | MatchAnything | ExactMatch string

definition spec_slot_constraint :: "int \<Rightarrow> string list \<Rightarrow> nat \<Rightarrow> slot_constraint" where
  "spec_slot_constraint field_index values n =
     (if int n < field_index \<or> int n \<ge> field_index + int (length values) then Unconstrained
      else if values ! nat (int n - field_index) = [] then MatchAnything
      else ExactMatch (values ! nat (int n - field_index)))"

text \<open>
  Reading a query: the column a clause is about, the kind of constraint it is, and the
  clauses of a query on one column.
\<close>

fun clause_column :: "where_clause \<Rightarrow> string" where
  "clause_column (EqParam col, args) = col"
| "clause_column (LikeAny col, args) = col"

fun clause_kind :: "where_clause \<Rightarrow> slot_constraint" where
  "clause_kind (EqParam col, [v]) = ExactMatch v"
| "clause_kind (EqParam col, args) = Unconstrained"
| "clause_kind (LikeAny col, args) = MatchAnything"

definition constraints_on :: "query \<Rightarrow> string \<Rightarrow> query" where
  "constraints_on q col = filter (\<lambda>w. clause_column w = col) q"

text \<open>
  A query \<open>q\<close> is the filter predicate of the specification for \<open>rule_type\<close>,
  \<open>field_index\<close> and \<open>values\<close> when: its only clause on \<^verbatim>\<open>ptype\<close> is exact equality
  with \<open>rule_type\<close>; for each slot position 0 to 5 its clauses on the column of the slot
  are none, one that matches anything, or one exact equality, as the specification says;
  no clause is on any other column; and a row \<open>r\<close> matches \<open>q\<close> exactly when its rule
  type is \<open>rule_type\<close> and every slot with an exact-equality constraint holds that value.
\<close>

definition filter_predicate_spec ::
  "query \<Rightarrow> string \<Rightarrow> int \<Rightarrow> string list \<Rightarrow> CasbinPolicy \<Rightarrow> bool" where
  "filter_predicate_spec q rule_type field_index values r \<longleftrightarrow>
     constraints_on q ''ptype'' = [(EqParam ''ptype'', [rule_type])]
     \<and> (\<forall>n\<in>{0..5}. map clause_kind (constraints_on q (sprintf_v n)) =
           (case spec_slot_constraint field_index values n of Unconstrained \<Rightarrow> [] | c \<Rightarrow> [c]))
     \<and> (\<forall>w\<in>set q. clause_column w \<in> set [''ptype'', ''v0'', ''v1'', ''v2'', ''v3'', ''v4'', ''v5''])
     \<and> (matches q r \<longleftrightarrow>
          PType r = rule_type
          \<and> (\<forall>n\<in>{0..5}. case spec_slot_constraint field_index values n of
                           ExactMatch v \<Rightarrow> slot n r = v
                         | _ \<Rightarrow> True))"

text \<open>
  The clauses one pass of the loop over the slots adds for position \<open>n\<close>; \<open>like_args\<close>
  gives the arguments passed along with \<^verbatim>\<open>col LIKE '%'\<close> (none in
  \<^verbatim>\<open>deleteFilteredPolicy\<close>, the empty value in \<^verbatim>\<open>UpdateFilteredPoliciesCtx\<close>).
\<close>

definition slot_clauses :: "(string \<Rightarrow> string list) \<Rightarrow> int \<Rightarrow> string list \<Rightarrow> nat \<Rightarrow> query" where
  "slot_clauses like_args fieldIndex fieldValues n =
     (case spec_slot_constraint fieldIndex fieldValues n of
        Unconstrained \<Rightarrow> []
      | MatchAnything \<Rightarrow> [(LikeAny (sprintf_v n), like_args [])]
      | ExactMatch v \<Rightarrow> [(EqParam (sprintf_v n), [v])])"

section \<open>Facts about the codec\<close>

lemma nonEmptyFields_loop_filter:
  "nonEmptyFields_loop fs result = result @ filter (\<lambda>f. f \<noteq> []) fs"
  by (induction fs arbitrary: result) auto

lemma nonEmptyFields_filter: "nonEmptyFields fs = filter (\<lambda>f. f \<noteq> []) fs"
  by (simp add: nonEmptyFields_def nonEmptyFields_loop_filter)

lemma filterValues_slots: "filterValues c = filter (\<lambda>f. f \<noteq> []) (slots c)"
  by (simp add: filterValues_def slots_def nonEmptyFields_filter)

lemma newCasbinPolicy_loop_slots:
  "i \<le> 6 \<Longrightarrow> slots (newCasbinPolicy_loop rule i c) =
     take i (slots c) @ take (6 - i) (drop i rule)
       @ drop (i + length (take (6 - i) (drop i rule))) (slots c)"
proof (induction rule i c rule: newCasbinPolicy_loop.induct)
  case (1 rule i c)
  show ?case
  proof (cases "i < length rule \<and> i < 6")
    case False
    then have e: "take (6 - i) (drop i rule) = []" using "1.prems" by auto
    have "newCasbinPolicy_loop rule i c = c"
      using False by (subst newCasbinPolicy_loop.simps) auto
    then show ?thesis by (simp only: e) simp
  next
    case True
    then have i: "i < length rule" "i < 6" by auto
    let ?c = "newCasbinPolicy_switch i (rule ! i) c"
    have sw: "slots ?c = (slots c)[i := rule ! i]"
      using i(2) unfolding newCasbinPolicy_switch_def slots_def
      by (cases i rule: nat.exhaust; simp add: numeral_eq_Suc split: nat.splits)
    have len: "length (slots c) = 6" by (simp add: slots_def)
    have IH: "slots (newCasbinPolicy_loop rule (i + 1) ?c) =
        take (i + 1) (slots ?c) @ take (6 - (i + 1)) (drop (i + 1) rule)
          @ drop (i + 1 + length (take (6 - (i + 1)) (drop (i + 1) rule))) (slots ?c)"
      using "1.IH" [OF True] i by simp
    have t1: "take (i + 1) (slots ?c) = take i (slots c) @ [rule ! i]"
      using i len by (simp add: sw take_Suc_conv_app_nth)
    have t2: "take (6 - i) (drop i rule) = rule ! i # take (6 - (i + 1)) (drop (i + 1) rule)"
    proof -
      have "drop i rule = rule ! i # drop (Suc i) rule"
        using i(1) by (simp add: Cons_nth_drop_Suc)
      moreover have "6 - i = Suc (6 - (i + 1))" using i(2) by simp
      ultimately show ?thesis by simp
    qed
    have t3: "drop (i + 1 + n) (slots ?c) = drop (i + 1 + n) (slots c)" for n
      by (simp add: sw)
    have "newCasbinPolicy_loop rule i c = newCasbinPolicy_loop rule (i + 1) ?c"
      using True by (subst newCasbinPolicy_loop.simps) auto
    then show ?thesis
      by (simp only: IH t1 t2 t3) simp
  qed
qed

lemma slots_newCasbinPolicy:
  "slots (newCasbinPolicy ptype rule) = take 6 rule @ replicate (6 - length rule) []"
proof -
  have "slots (newCasbinPolicy ptype rule) =
      take 6 rule @ drop (length (take 6 rule)) (replicate 6 [])"
    unfolding newCasbinPolicy_def
    by (subst newCasbinPolicy_loop_slots) (simp_all add: slots_def numeral_eq_Suc)
  then show ?thesis by (simp add: min_def)
qed

lemma newCasbinPolicy_loop_PType [simp]:
  "PType (newCasbinPolicy_loop rule i c) = PType c"
proof (induction rule i c rule: newCasbinPolicy_loop.induct)
  case (1 rule i c)
  show ?case
  proof (cases "i < length rule \<and> i < 6")
    case True
    have "newCasbinPolicy_loop rule i c =
        newCasbinPolicy_loop rule (i + 1) (newCasbinPolicy_switch i (rule ! i) c)"
      using True by (subst newCasbinPolicy_loop.simps) auto
    with "1.IH" [OF True] show ?thesis
      by (simp add: newCasbinPolicy_switch_def)
  next
    case False
    then show ?thesis by (subst newCasbinPolicy_loop.simps) auto
  qed
qed

lemma newCasbinPolicy_loop_ID [simp]:
  "ID (newCasbinPolicy_loop rule i c) = ID c"
proof (induction rule i c rule: newCasbinPolicy_loop.induct)
  case (1 rule i c)
  show ?case
  proof (cases "i < length rule \<and> i < 6")
    case True
    have "newCasbinPolicy_loop rule i c =
        newCasbinPolicy_loop rule (i + 1) (newCasbinPolicy_switch i (rule ! i) c)"
      using True by (subst newCasbinPolicy_loop.simps) auto
    with "1.IH" [OF True] show ?thesis
      by (simp add: newCasbinPolicy_switch_def)
  next
    case False
    then show ?thesis by (subst newCasbinPolicy_loop.simps) auto
  qed
qed

lemma PType_newCasbinPolicy [simp]: "PType (newCasbinPolicy ptype rule) = ptype"
  by (simp add: newCasbinPolicy_def)

lemma ID_newCasbinPolicy [simp]: "ID (newCasbinPolicy ptype rule) = 0"
  by (simp add: newCasbinPolicy_def)

section \<open>Round trip of the codec\<close>

text \<open>
  C1 (as amended). For every rule type and every tuple \<open>T\<close> of at most 6 strings none of
  which is the empty string, the filter values decoded from the encoded record are \<open>T\<close>.
\<close>

theorem filterValues_newCasbinPolicy_roundtrip:
  assumes "length T \<le> 6" and "[] \<notin> set T"
  shows "filterValues (newCasbinPolicy ptype T) = T"
proof -
  have "filter (\<lambda>f. f \<noteq> []) T = T"
    using assms(2) by (auto simp: filter_id_conv)
  then show ?thesis
    using assms(1) by (simp add: filterValues_slots slots_newCasbinPolicy)
qed

theorem filterValues_newCasbinPolicy_roundtrip_witness:
  "length [''alice'', ''data1'', ''read''] \<le> 6 \<and> [] \<notin> set [''alice'', ''data1'', ''read''] \<and>
   filterValues (newCasbinPolicy ''p'' [''alice'', ''data1'', ''read'']) =
     [''alice'', ''data1'', ''read'']"
  using filterValues_newCasbinPolicy_roundtrip [of "[''alice'', ''data1'', ''read'']" "''p''"]
  by simp

text \<open>
  The round trip as the claim states it, for every tuple of at most 6 strings, fails on a
  tuple that holds an empty string: the decoder drops it.
\<close>

theorem filterValues_newCasbinPolicy_roundtrip_counterexample:
  "length [''alice'', [], ''read''] \<le> 6 \<and>
   filterValues (newCasbinPolicy ''g'' [''alice'', [], ''read'']) = [''alice'', ''read''] \<and>
   filterValues (newCasbinPolicy ''g'' [''alice'', [], ''read'']) \<noteq> [''alice'', [], ''read'']"
  by (simp add: filterValues_slots slots_newCasbinPolicy)

section \<open>Truncation and the empty tuple\<close>

text \<open>
  C7. For every tuple \<open>T\<close> longer than 6, the slots \<open>V0\<close> to \<open>V5\<close> of the encoded record
  are the first 6 elements of \<open>T\<close> and the rule type is the one given; the encoder is a
  total function with no error result. For the empty tuple all six slots of the encoded
  record are the empty string, and its decoded filter values are the empty sequence.
\<close>

theorem newCasbinPolicy_truncates:
  "(length T > 6 \<longrightarrow>
      [V0 (newCasbinPolicy ptype T), V1 (newCasbinPolicy ptype T), V2 (newCasbinPolicy ptype T),
       V3 (newCasbinPolicy ptype T), V4 (newCasbinPolicy ptype T), V5 (newCasbinPolicy ptype T)]
        = take 6 T
      \<and> PType (newCasbinPolicy ptype T) = ptype)
   \<and> newCasbinPolicy ptype [] =
        \<lparr>ID = 0, PType = ptype, V0 = [], V1 = [], V2 = [], V3 = [], V4 = [], V5 = []\<rparr>
   \<and> filterValues (newCasbinPolicy ptype []) = []"
proof -
  have a: "length T > 6 \<Longrightarrow> slots (newCasbinPolicy ptype T) = take 6 T"
    by (simp add: slots_newCasbinPolicy)
  have b: "newCasbinPolicy ptype [] =
      \<lparr>ID = 0, PType = ptype, V0 = [], V1 = [], V2 = [], V3 = [], V4 = [], V5 = []\<rparr>"
    unfolding newCasbinPolicy_def by (subst newCasbinPolicy_loop.simps) simp
  have c: "filterValues (newCasbinPolicy ptype []) = []"
    by (simp add: filterValues_slots slots_newCasbinPolicy)
  from a b c show ?thesis
    unfolding slots_def by simp
qed

theorem newCasbinPolicy_truncates_witness:
  "length [''a'', ''b'', ''c'', ''d'', ''e'', ''f'', ''g'', ''h''] > 6 \<and>
   [V0 (newCasbinPolicy ''p'' [''a'', ''b'', ''c'', ''d'', ''e'', ''f'', ''g'', ''h'']),
    V1 (newCasbinPolicy ''p'' [''a'', ''b'', ''c'', ''d'', ''e'', ''f'', ''g'', ''h'']),
    V2 (newCasbinPolicy ''p'' [''a'', ''b'', ''c'', ''d'', ''e'', ''f'', ''g'', ''h'']),
    V3 (newCasbinPolicy ''p'' [''a'', ''b'', ''c'', ''d'', ''e'', ''f'', ''g'', ''h'']),
    V4 (newCasbinPolicy ''p'' [''a'', ''b'', ''c'', ''d'', ''e'', ''f'', ''g'', ''h'']),
    V5 (newCasbinPolicy ''p'' [''a'', ''b'', ''c'', ''d'', ''e'', ''f'', ''g'', ''h''])]
     = [''a'', ''b'', ''c'', ''d'', ''e'', ''f'']"
  using newCasbinPolicy_truncates
    [of "[''a'', ''b'', ''c'', ''d'', ''e'', ''f'', ''g'', ''h'']" "''p''"]
  by simp

section \<open>The filter predicate\<close>

lemma sprintf_v_small:
  "sprintf_v 0 = ''v0''" "sprintf_v (Suc 0) = ''v1''" "sprintf_v 2 = ''v2''"
  "sprintf_v 3 = ''v3''" "sprintf_v 4 = ''v4''" "sprintf_v 5 = ''v5''"
  by (simp_all add: sprintf_v_def decimal.simps digit_def)

lemma le5_cases: "n \<le> 5 \<Longrightarrow> n = 0 \<or> n = Suc 0 \<or> n = 2 \<or> n = 3 \<or> n = 4 \<or> n = (5::nat)"
  by arith

lemma column_sprintf_v: "n \<le> 5 \<Longrightarrow> column (sprintf_v n) r = Some (slot n r)"
  by (auto dest!: le5_cases simp: sprintf_v_small column_def slot_def)

lemma sprintf_v_inj: "n \<le> 5 \<Longrightarrow> m \<le> 5 \<Longrightarrow> sprintf_v n = sprintf_v m \<longleftrightarrow> n = m"
  by (auto dest!: le5_cases simp: sprintf_v_small)

lemma sprintf_v_not_ptype: "n \<le> 5 \<Longrightarrow> sprintf_v n \<noteq> ''ptype''"
  by (auto dest!: le5_cases simp: sprintf_v_small)

lemma deleteFilteredPolicy_loop_clauses:
  "n \<le> 6 \<Longrightarrow> deleteFilteredPolicy_loop fieldIndex fieldValues n query =
     query @ concat (map (slot_clauses (\<lambda>v. []) fieldIndex fieldValues) [n..<6])"
proof (induction fieldIndex fieldValues n query rule: deleteFilteredPolicy_loop.induct)
  case (1 fieldIndex fieldValues n query)
  show ?case
  proof (cases "n \<le> 5")
    case False
    with "1.prems" have "n = 6" by simp
    then show ?thesis by (subst deleteFilteredPolicy_loop.simps) simp
  next
    case True
    then have upt: "[n..<6] = n # [n + 1..<6]" by (simp add: upt_conv_Cons)
    show ?thesis
    proof (cases "fieldIndex > int n \<or> int n \<ge> fieldIndex + int (length fieldValues)")
      case out: True
      have "deleteFilteredPolicy_loop fieldIndex fieldValues n query =
          deleteFilteredPolicy_loop fieldIndex fieldValues (n + 1) query"
        using True out by (subst deleteFilteredPolicy_loop.simps) auto
      moreover have "slot_clauses (\<lambda>v. []) fieldIndex fieldValues n = []"
        using out by (auto simp: slot_clauses_def spec_slot_constraint_def)
      ultimately show ?thesis
        using "1.IH"(1) [OF True out] True by (simp add: upt)
    next
      case inside: False
      let ?v = "fieldValues ! nat (int n - fieldIndex)"
      let ?q = "if ?v = [] then Where query (LikeAny (sprintf_v n)) []
                else Where query (EqParam (sprintf_v n)) [?v]"
      have step: "deleteFilteredPolicy_loop fieldIndex fieldValues n query =
          deleteFilteredPolicy_loop fieldIndex fieldValues (n + 1) ?q"
        using True inside by (subst deleteFilteredPolicy_loop.simps) (auto simp: Let_def)
      have q: "?q = query @ slot_clauses (\<lambda>v. []) fieldIndex fieldValues n"
        using inside by (auto simp: slot_clauses_def spec_slot_constraint_def Where_def)
      have "deleteFilteredPolicy_loop fieldIndex fieldValues (n + 1) ?q =
          ?q @ concat (map (slot_clauses (\<lambda>v. []) fieldIndex fieldValues) [n + 1..<6])"
        using "1.IH"(2) [OF True inside refl refl] True by simp
      then show ?thesis
        by (simp only: step q upt) simp
    qed
  qed
qed


lemma UpdateFilteredPolicies_loop_clauses:
  "n \<le> 6 \<Longrightarrow> UpdateFilteredPolicies_loop fieldIndex fieldValues n (selectQuery, deleteQuery) =
     (selectQuery @ concat (map (slot_clauses (\<lambda>v. [v]) fieldIndex fieldValues) [n..<6]),
      deleteQuery @ concat (map (slot_clauses (\<lambda>v. [v]) fieldIndex fieldValues) [n..<6]))"
proof (induction fieldIndex fieldValues n "(selectQuery, deleteQuery)"
    arbitrary: selectQuery deleteQuery rule: UpdateFilteredPolicies_loop.induct)
  case (1 fieldIndex fieldValues n selectQuery deleteQuery)
  show ?case
  proof (cases "n \<le> 5")
    case False
    with "1.prems" have "n = 6" by simp
    then show ?thesis by (subst UpdateFilteredPolicies_loop.simps) simp
  next
    case True
    then have upt: "[n..<6] = n # [n + 1..<6]" by (simp add: upt_conv_Cons)
    show ?thesis
    proof (cases "fieldIndex > int n \<or> int n \<ge> fieldIndex + int (length fieldValues)")
      case out: True
      have "UpdateFilteredPolicies_loop fieldIndex fieldValues n (selectQuery, deleteQuery) =
          UpdateFilteredPolicies_loop fieldIndex fieldValues (n + 1) (selectQuery, deleteQuery)"
        using True out by (subst UpdateFilteredPolicies_loop.simps) auto
      moreover have "slot_clauses (\<lambda>v. [v]) fieldIndex fieldValues n = []"
        using out by (auto simp: slot_clauses_def spec_slot_constraint_def)
      ultimately show ?thesis
        using "1.hyps"(1) [OF True out] True by (simp add: upt)
    next
      case inside: False
      let ?v = "fieldValues ! nat (int n - fieldIndex)"
      let ?cond = "if ?v \<noteq> [] then EqParam (sprintf_v n) else LikeAny (sprintf_v n)"
      have step: "UpdateFilteredPolicies_loop fieldIndex fieldValues n (selectQuery, deleteQuery) =
          UpdateFilteredPolicies_loop fieldIndex fieldValues (n + 1)
            (Where selectQuery ?cond [?v], Where deleteQuery ?cond [?v])"
        using True inside by (subst UpdateFilteredPolicies_loop.simps) (auto simp: Let_def)
      have q: "Where query ?cond [?v] = query @ slot_clauses (\<lambda>v. [v]) fieldIndex fieldValues n"
        for query
        using inside by (auto simp: slot_clauses_def spec_slot_constraint_def Where_def)
      have "UpdateFilteredPolicies_loop fieldIndex fieldValues (n + 1)
            (Where selectQuery ?cond [?v], Where deleteQuery ?cond [?v]) =
          (Where selectQuery ?cond [?v]
             @ concat (map (slot_clauses (\<lambda>v. [v]) fieldIndex fieldValues) [n + 1..<6]),
           Where deleteQuery ?cond [?v]
             @ concat (map (slot_clauses (\<lambda>v. [v]) fieldIndex fieldValues) [n + 1..<6]))"
        using "1.hyps"(2) [OF True inside refl refl refl] True by simp
      then show ?thesis
        by (simp only: step q upt) simp
    qed
  qed
qed


lemma ball_slots: "(\<forall>n\<in>{0..5::nat}. P n) \<longleftrightarrow> P 0 \<and> P (Suc 0) \<and> P 2 \<and> P 3 \<and> P 4 \<and> P 5"
  by (auto dest!: le5_cases)

lemma upt_0_6: "[0..<6] = [0, Suc 0, 2, 3, 4, 5]"
  by (simp add: upt_conv_Cons)

lemma constraints_on_append [simp]:
  "constraints_on (a @ b) col = constraints_on a col @ constraints_on b col"
  by (simp add: constraints_on_def)

lemma constraints_on_Nil [simp]: "constraints_on [] col = []"
  by (simp add: constraints_on_def)

lemma constraints_on_slot_clauses:
  "constraints_on (slot_clauses la fi vs m) col =
     (if col = sprintf_v m then slot_clauses la fi vs m else [])"
  by (auto simp: constraints_on_def slot_clauses_def split: slot_constraint.splits)

lemma kind_slot_clauses:
  "map clause_kind (slot_clauses la fi vs m) =
     (case spec_slot_constraint fi vs m of Unconstrained \<Rightarrow> [] | c \<Rightarrow> [c])"
  by (auto simp: slot_clauses_def split: slot_constraint.splits)

lemma column_slot_clauses:
  "w \<in> set (slot_clauses la fi vs m) \<Longrightarrow> clause_column w = sprintf_v m"
  by (auto simp: slot_clauses_def split: slot_constraint.splits)

lemma holds_slot_clauses:
  "m \<le> 5 \<Longrightarrow> list_all (\<lambda>w. holds w r) (slot_clauses la fi vs m) \<longleftrightarrow>
     (case spec_slot_constraint fi vs m of ExactMatch v \<Rightarrow> slot m r = v | _ \<Rightarrow> True)"
  by (auto simp: slot_clauses_def column_sprintf_v split: slot_constraint.splits)

lemma filter_predicate_spec_clauses:
  "filter_predicate_spec
     ((EqParam ''ptype'', [ptype]) # concat (map (slot_clauses la fi vs) [0..<6])) ptype fi vs r"
proof -
  let ?q = "(EqParam ''ptype'', [ptype]) # concat (map (slot_clauses la fi vs) [0..<6])"
  have q: "?q = [(EqParam ''ptype'', [ptype])] @ slot_clauses la fi vs 0 @ slot_clauses la fi vs (Suc 0)
      @ slot_clauses la fi vs 2 @ slot_clauses la fi vs 3 @ slot_clauses la fi vs 4
      @ slot_clauses la fi vs 5"
    by (simp add: upt_0_6)
  have pt: "constraints_on ((EqParam ''ptype'', [ptype]) # rest) col =
      (if col = ''ptype'' then [(EqParam ''ptype'', [ptype])] else []) @ constraints_on rest col"
    for col rest
    by (simp add: constraints_on_def)
  have a: "constraints_on ?q ''ptype'' = [(EqParam ''ptype'', [ptype])]"
    unfolding q by (simp add: constraints_on_slot_clauses pt sprintf_v_small)
  have b: "\<forall>n\<in>{0..5}. map clause_kind (constraints_on ?q (sprintf_v n)) =
           (case spec_slot_constraint fi vs n of Unconstrained \<Rightarrow> [] | c \<Rightarrow> [c])"
    unfolding q ball_slots
    by (simp add: constraints_on_slot_clauses pt sprintf_v_small kind_slot_clauses)
  have c: "\<forall>w\<in>set ?q. clause_column w \<in> set [''ptype'', ''v0'', ''v1'', ''v2'', ''v3'', ''v4'', ''v5'']"
    unfolding q by (auto dest!: column_slot_clauses simp: sprintf_v_small)
  have d: "matches ?q r \<longleftrightarrow>
          PType r = ptype
          \<and> (\<forall>n\<in>{0..5}. case spec_slot_constraint fi vs n of
                           ExactMatch v \<Rightarrow> slot n r = v
                         | _ \<Rightarrow> True)"
    unfolding q ball_slots matches_def
    by (simp add: holds_slot_clauses column_def)
  from a b c d show ?thesis
    unfolding filter_predicate_spec_def by blast
qed

lemma deleteFilteredPolicy_query_clauses:
  "deleteFilteredPolicy_query ptype fi vs =
     (EqParam ''ptype'', [ptype]) # concat (map (slot_clauses (\<lambda>v. []) fi vs) [0..<6])"
  by (simp add: deleteFilteredPolicy_query_def deleteFilteredPolicy_loop_clauses Where_def)

lemma UpdateFilteredPolicies_queries_clauses:
  "UpdateFilteredPolicies_queries ptype fi vs =
     ((EqParam ''ptype'', [ptype]) # concat (map (slot_clauses (\<lambda>v. [v]) fi vs) [0..<6]),
      (EqParam ''ptype'', [ptype]) # concat (map (slot_clauses (\<lambda>v. [v]) fi vs) [0..<6]))"
  by (simp add: UpdateFilteredPolicies_queries_def UpdateFilteredPolicies_loop_clauses Where_def)

lemma filter_index_in_range:
  "\<not> (fieldIndex > int n \<or> int n \<ge> fieldIndex + int (length fieldValues))
     \<Longrightarrow> nat (int n - fieldIndex) < length fieldValues"
  by auto

text \<open>
  C2. For every rule type, field index and list of filter values, the query of the
  filtered delete and the select and delete queries of the filtered replace are each the
  filter predicate of the specification: for each slot position 0 to 5, no clause when
  the position is below the field index or at or beyond field index plus the number of
  values, one always-true match-anything clause on the column of the slot when the value
  for the slot is the empty string, one exact equality with that value otherwise; the
  rule type is matched exactly by a clause of its own; and there is no clause on any
  column beyond slot 5, also when the values reach beyond it.
\<close>

theorem filter_predicate_built:
  "filter_predicate_spec (deleteFilteredPolicy_query ptype fieldIndex fieldValues)
      ptype fieldIndex fieldValues r
   \<and> filter_predicate_spec (fst (UpdateFilteredPolicies_queries ptype fieldIndex fieldValues))
      ptype fieldIndex fieldValues r
   \<and> filter_predicate_spec (snd (UpdateFilteredPolicies_queries ptype fieldIndex fieldValues))
      ptype fieldIndex fieldValues r"
  by (simp add: deleteFilteredPolicy_query_clauses UpdateFilteredPolicies_queries_clauses
      filter_predicate_spec_clauses)

theorem filter_predicate_built_witness:
  "filter_predicate_spec (deleteFilteredPolicy_query ''p'' 1 [''data1'', []])
      ''p'' 1 [''data1'', []]
      \<lparr>ID = 1, PType = ''p'', V0 = ''alice'', V1 = ''data1'', V2 = ''read'',
       V3 = [], V4 = [], V5 = []\<rparr>
   \<and> matches (deleteFilteredPolicy_query ''p'' 1 [''data1'', []])
      \<lparr>ID = 1, PType = ''p'', V0 = ''alice'', V1 = ''data1'', V2 = ''read'',
       V3 = [], V4 = [], V5 = []\<rparr>
   \<and> matches (fst (UpdateFilteredPolicies_queries ''p'' 1 [''data1'', []]))
      \<lparr>ID = 1, PType = ''p'', V0 = ''alice'', V1 = ''data1'', V2 = ''read'',
       V3 = [], V4 = [], V5 = []\<rparr>
   \<and> map clause_kind (constraints_on (deleteFilteredPolicy_query ''p'' 1 [''data1'', []]) ''v0'') = []
   \<and> map clause_kind (constraints_on (deleteFilteredPolicy_query ''p'' 1 [''data1'', []]) ''v1'')
       = [ExactMatch ''data1'']
   \<and> map clause_kind (constraints_on (deleteFilteredPolicy_query ''p'' 1 [''data1'', []]) ''v2'')
       = [MatchAnything]"
  using filter_predicate_built [of "''p''" 1 "[''data1'', []]"
      "\<lparr>ID = 1, PType = ''p'', V0 = ''alice'', V1 = ''data1'', V2 = ''read'',
        V3 = [], V4 = [], V5 = []\<rparr>"]
  by (simp add: filter_predicate_spec_def ball_slots spec_slot_constraint_def slot_def
      sprintf_v_small)

section \<open>Single remove\<close>

lemma update_fresh: "k \<notin> fst ` set al \<Longrightarrow> AList.update k v al = al @ [(k, v)]"
  by (induction al) auto

lemma sprintf_v_inj6: "n \<le> 5 \<Longrightarrow> m \<le> 5 \<Longrightarrow> sprintf_v n = sprintf_v m \<Longrightarrow> n = m"
  using sprintf_v_inj by blast

lemma filterValuesWithKey_loop_entries:
  "i + length vs \<le> 6 \<Longrightarrow> fst ` set kvs \<subseteq> sprintf_v ` {..<i} \<Longrightarrow>
   filterValuesWithKey_loop i vs kvs =
     kvs @ map (\<lambda>(j, v). (sprintf_v j, v))
                (filter (\<lambda>(j, v). v \<noteq> []) (zip [i..<i + length vs] vs))"
proof (induction vs arbitrary: i kvs)
  case Nil
  then show ?case by simp
next
  case (Cons v vs)
  have upt: "[i..<i + length (v # vs)] = i # [i + 1..<i + 1 + length vs]"
    using upt_conv_Cons [of i "i + length (v # vs)"] by simp
  have fresh: "sprintf_v i \<notin> fst ` set kvs"
  proof
    assume "sprintf_v i \<in> fst ` set kvs"
    with Cons.prems(2) obtain j where "j < i" "sprintf_v i = sprintf_v j" by auto
    with Cons.prems(1) show False using sprintf_v_inj6 [of i j] by simp
  qed
  let ?kvs = "if v \<noteq> [] then AList.update (sprintf_v i) v kvs else kvs"
  have keys: "fst ` set ?kvs \<subseteq> sprintf_v ` {..<i + 1}"
    using Cons.prems(2) by (auto simp: AList.dom_update less_Suc_eq)
  have "filterValuesWithKey_loop (i + 1) vs ?kvs =
      ?kvs @ map (\<lambda>(j, v). (sprintf_v j, v))
                (filter (\<lambda>(j, v). v \<noteq> []) (zip [i + 1..<i + 1 + length vs] vs))"
    using Cons.prems(1) by (intro Cons.IH keys) simp
  then show ?case
    by (simp only: upt filterValuesWithKey_loop.simps) (simp add: update_fresh [OF fresh])
qed

lemma filterValuesWithKey_entries:
  "filterValuesWithKey c =
     map (\<lambda>j. (sprintf_v j, slot j c)) (filter (\<lambda>j. slot j c \<noteq> []) [0..<6])"
proof -
  have "filterValuesWithKey c = map (\<lambda>(j, v). (sprintf_v j, v))
                (filter (\<lambda>(j, v). v \<noteq> []) (zip [0..<0 + length (slots c)] (slots c)))"
    unfolding filterValuesWithKey_def slots_def [symmetric]
    by (subst filterValuesWithKey_loop_entries) (simp_all add: slots_def)
  moreover have "zip [0..<length (slots c)] (slots c) =
      map (\<lambda>j. (j, slots c ! j)) [0..<length (slots c)]"
    by (intro nth_equalityI) auto
  moreover have "length (slots c) = 6" "slots c ! j = slot j c" for j
    by (simp_all add: slots_def slot_def)
  ultimately show ?thesis
    by (simp add: filter_map comp_def)
qed

lemma delete_loop_clauses:
  "delete_loop kvs query = query @ map (\<lambda>(key, v). (EqParam key, [v])) kvs"
  by (induction kvs query rule: delete_loop.induct) (simp_all add: Where_def)

lemma update_loop_clauses:
  "update_loop kvs query = query @ map (\<lambda>(key, v). (EqParam key, [v])) kvs"
  by (induction kvs query rule: update_loop.induct) (simp_all add: Where_def)

lemma deleteRecord_query_clauses:
  "deleteRecord_query c =
     (EqParam ''ptype'', [PType c])
       # map (\<lambda>j. (EqParam (sprintf_v j), [slot j c])) (filter (\<lambda>j. slot j c \<noteq> []) [0..<6])"
  by (simp add: deleteRecord_query_def delete_loop_clauses filterValuesWithKey_entries Where_def
      comp_def)

lemma matches_deleteRecord_query:
  "matches (deleteRecord_query c) r \<longleftrightarrow>
     PType r = PType c \<and> (\<forall>j\<in>{0..5}. slot j c \<noteq> [] \<longrightarrow> slot j r = slot j c)"
  unfolding deleteRecord_query_clauses matches_def ball_slots
  by (simp add: upt_0_6 column_def sprintf_v_small slot_def)


lemma newCasbinPolicy_Nil:
  "newCasbinPolicy ptype [] =
     \<lparr>ID = 0, PType = ptype, V0 = [], V1 = [], V2 = [], V3 = [], V4 = [], V5 = []\<rparr>"
  unfolding newCasbinPolicy_def by (subst newCasbinPolicy_loop.simps) simp

lemma RemovePolicyCtx_exec:
  "RemovePolicyCtx flt d ptype rule =
     (case flt 0 of
        Some e \<Rightarrow> (Some e, d)
      | None \<Rightarrow> (None, d\<lparr>rows := filter (\<lambda>r. \<not> matches (deleteRecord_query (newCasbinPolicy ptype rule)) r)
                                  (rows d)\<rparr>))"
  by (simp add: RemovePolicyCtx_def deleteRecord_def delete_def Delete_Exec_def
      deleteRecord_query_def split: option.splits)

text \<open>
  C6. For every single remove, the query that \<^verbatim>\<open>deleteRecord\<close> executes for the encoded
  tuple is exact equality on the rule type followed by exact equality on each slot of the
  encoding that is not empty, and nothing else: an empty slot adds no clause. The remove
  therefore deletes every row that has the rule type and agrees with the encoding on its
  non-empty slots, whatever the row holds in the other slots; with the tuple
  (alice, data1) it deletes both (alice, data1, read) and (alice, data1, write).
\<close>

theorem RemovePolicyCtx_partial_key:
  "deleteRecord fault d (newCasbinPolicy ptype rule) =
     (case Delete_Exec fault (deleteRecord_query (newCasbinPolicy ptype rule)) d of
        Inl e \<Rightarrow> (Some e, d)
      | Inr d' \<Rightarrow> (None, d'))
   \<and> deleteRecord_query (newCasbinPolicy ptype rule) =
       (EqParam ''ptype'', [ptype])
         # map (\<lambda>j. (EqParam (sprintf_v j), [slot j (newCasbinPolicy ptype rule)]))
             (filter (\<lambda>j. slot j (newCasbinPolicy ptype rule) \<noteq> []) [0..<6])
   \<and> RemovePolicyCtx flt d ptype rule =
       (case flt 0 of
          Some e \<Rightarrow> (Some e, d)
        | None \<Rightarrow>
            (None, d\<lparr>rows :=
               filter (\<lambda>r. \<not> (PType r = ptype
                              \<and> (\<forall>j\<in>{0..5}. slot j (newCasbinPolicy ptype rule) \<noteq> []
                                    \<longrightarrow> slot j r = slot j (newCasbinPolicy ptype rule))))
                 (rows d)\<rparr>))
   \<and> RemovePolicyCtx no_faults
        \<lparr>rows = [\<lparr>ID = 1, PType = ''p'', V0 = ''alice'', V1 = ''data1'', V2 = ''read'',
                   V3 = [], V4 = [], V5 = []\<rparr>,
                 \<lparr>ID = 2, PType = ''p'', V0 = ''alice'', V1 = ''data1'', V2 = ''write'',
                   V3 = [], V4 = [], V5 = []\<rparr>,
                 \<lparr>ID = 3, PType = ''p'', V0 = ''bob'', V1 = ''data1'', V2 = ''read'',
                   V3 = [], V4 = [], V5 = []\<rparr>],
         next_id = 4\<rparr> ''p'' [''alice'', ''data1'']
       = (None,
          \<lparr>rows = [\<lparr>ID = 3, PType = ''p'', V0 = ''bob'', V1 = ''data1'', V2 = ''read'',
                     V3 = [], V4 = [], V5 = []\<rparr>],
           next_id = 4\<rparr>)"
proof -
  have a: "deleteRecord fault d (newCasbinPolicy ptype rule) =
     (case Delete_Exec fault (deleteRecord_query (newCasbinPolicy ptype rule)) d of
        Inl e \<Rightarrow> (Some e, d)
      | Inr d' \<Rightarrow> (None, d'))"
    by (simp add: deleteRecord_def delete_def deleteRecord_query_def)
  have b: "deleteRecord_query (newCasbinPolicy ptype rule) =
       (EqParam ''ptype'', [ptype])
         # map (\<lambda>j. (EqParam (sprintf_v j), [slot j (newCasbinPolicy ptype rule)]))
             (filter (\<lambda>j. slot j (newCasbinPolicy ptype rule) \<noteq> []) [0..<6])"
    by (simp add: deleteRecord_query_clauses)
  have c: "RemovePolicyCtx flt d ptype rule =
       (case flt 0 of
          Some e \<Rightarrow> (Some e, d)
        | None \<Rightarrow>
            (None, d\<lparr>rows :=
               filter (\<lambda>r. \<not> (PType r = ptype
                              \<and> (\<forall>j\<in>{0..5}. slot j (newCasbinPolicy ptype rule) \<noteq> []
                                    \<longrightarrow> slot j r = slot j (newCasbinPolicy ptype rule))))
                 (rows d)\<rparr>))"
    by (simp add: RemovePolicyCtx_exec matches_deleteRecord_query split: option.splits)
  have slots2: "slots (newCasbinPolicy ''p'' [''alice'', ''data1'']) =
      [''alice'', ''data1'', [], [], [], []]"
    by (simp add: slots_newCasbinPolicy numeral_eq_Suc)
  have e: "RemovePolicyCtx no_faults
        \<lparr>rows = [\<lparr>ID = 1, PType = ''p'', V0 = ''alice'', V1 = ''data1'', V2 = ''read'',
                   V3 = [], V4 = [], V5 = []\<rparr>,
                 \<lparr>ID = 2, PType = ''p'', V0 = ''alice'', V1 = ''data1'', V2 = ''write'',
                   V3 = [], V4 = [], V5 = []\<rparr>,
                 \<lparr>ID = 3, PType = ''p'', V0 = ''bob'', V1 = ''data1'', V2 = ''read'',
                   V3 = [], V4 = [], V5 = []\<rparr>],
         next_id = 4\<rparr> ''p'' [''alice'', ''data1'']
       = (None,
          \<lparr>rows = [\<lparr>ID = 3, PType = ''p'', V0 = ''bob'', V1 = ''data1'', V2 = ''read'',
                     V3 = [], V4 = [], V5 = []\<rparr>],
           next_id = 4\<rparr>)"
    using slots2
    by (simp add: RemovePolicyCtx_exec matches_deleteRecord_query no_faults_def ball_slots
        slot_def slots_def)
  from a b c e show ?thesis by blast
qed

theorem RemovePolicyCtx_partial_key_witness:
  "deleteRecord_query (newCasbinPolicy ''g'' [''alice'']) =
     [(EqParam ''ptype'', [''g'']), (EqParam ''v0'', [''alice''])]
   \<and> RemovePolicyCtx no_faults
        \<lparr>rows = [\<lparr>ID = 1, PType = ''g'', V0 = ''alice'', V1 = ''admin'', V2 = [],
                   V3 = [], V4 = [], V5 = []\<rparr>,
                 \<lparr>ID = 2, PType = ''g'', V0 = ''bob'', V1 = ''admin'', V2 = [],
                   V3 = [], V4 = [], V5 = []\<rparr>,
                 \<lparr>ID = 3, PType = ''g'', V0 = ''alice'', V1 = ''auditor'', V2 = [],
                   V3 = [], V4 = [], V5 = []\<rparr>],
         next_id = 4\<rparr> ''g'' [''alice'']
       = (None,
          \<lparr>rows = [\<lparr>ID = 2, PType = ''g'', V0 = ''bob'', V1 = ''admin'', V2 = [],
                     V3 = [], V4 = [], V5 = []\<rparr>],
           next_id = 4\<rparr>)"
proof -
  have "slots (newCasbinPolicy ''g'' [''alice'']) = [''alice'', [], [], [], [], []]"
    by (simp add: slots_newCasbinPolicy numeral_eq_Suc)
  then have v: "V0 (newCasbinPolicy ''g'' [''alice'']) = ''alice''"
    "V1 (newCasbinPolicy ''g'' [''alice'']) = []" "V2 (newCasbinPolicy ''g'' [''alice'']) = []"
    "V3 (newCasbinPolicy ''g'' [''alice'']) = []" "V4 (newCasbinPolicy ''g'' [''alice'']) = []"
    "V5 (newCasbinPolicy ''g'' [''alice'']) = []"
    by (simp_all add: slots_def)
  show ?thesis
    using RemovePolicyCtx_partial_key [of None
        "\<lparr>rows = [\<lparr>ID = 1, PType = ''g'', V0 = ''alice'', V1 = ''admin'', V2 = [],
                   V3 = [], V4 = [], V5 = []\<rparr>,
                 \<lparr>ID = 2, PType = ''g'', V0 = ''bob'', V1 = ''admin'', V2 = [],
                   V3 = [], V4 = [], V5 = []\<rparr>,
                 \<lparr>ID = 3, PType = ''g'', V0 = ''alice'', V1 = ''auditor'', V2 = [],
                   V3 = [], V4 = [], V5 = []\<rparr>],
         next_id = 4\<rparr>" "''g''" "[''alice'']" no_faults]
    by (simp add: v slot_def ball_slots upt_0_6 sprintf_v_small no_faults_def)
qed

text \<open>
  C9. Single remove with the empty tuple: the keyed filter values of the all-empty record
  are empty, the query is the clause on the rule type alone, and the remove deletes every
  row whose rule type is the one given (nothing when the delete statement fails).
\<close>

theorem RemovePolicyCtx_empty_rule:
  "filterValuesWithKey (newCasbinPolicy ptype []) = []
   \<and> deleteRecord_query (newCasbinPolicy ptype []) = [(EqParam ''ptype'', [ptype])]
   \<and> RemovePolicyCtx flt d ptype [] =
       (case flt 0 of
          Some e \<Rightarrow> (Some e, d)
        | None \<Rightarrow> (None, d\<lparr>rows := filter (\<lambda>r. PType r \<noteq> ptype) (rows d)\<rparr>))"
proof -
  have a: "filterValuesWithKey (newCasbinPolicy ptype []) = []"
    by (simp add: newCasbinPolicy_Nil filterValuesWithKey_def)
  have b: "deleteRecord_query (newCasbinPolicy ptype []) = [(EqParam ''ptype'', [ptype])]"
    by (simp add: deleteRecord_query_def a Where_def)
  have "matches (deleteRecord_query (newCasbinPolicy ptype [])) r \<longleftrightarrow> PType r = ptype" for r
    by (simp add: b matches_def column_def)
  then have c: "RemovePolicyCtx flt d ptype [] =
       (case flt 0 of
          Some e \<Rightarrow> (Some e, d)
        | None \<Rightarrow> (None, d\<lparr>rows := filter (\<lambda>r. PType r \<noteq> ptype) (rows d)\<rparr>))"
    by (simp add: RemovePolicyCtx_exec split: option.splits)
  from a b c show ?thesis by blast
qed


theorem RemovePolicyCtx_empty_rule_witness:
  "RemovePolicyCtx no_faults
        \<lparr>rows = [\<lparr>ID = 1, PType = ''p'', V0 = ''alice'', V1 = ''data1'', V2 = ''read'',
                   V3 = [], V4 = [], V5 = []\<rparr>,
                 \<lparr>ID = 2, PType = ''g'', V0 = ''alice'', V1 = ''admin'', V2 = [],
                   V3 = [], V4 = [], V5 = []\<rparr>,
                 \<lparr>ID = 3, PType = ''p'', V0 = ''bob'', V1 = ''data2'', V2 = ''write'',
                   V3 = [], V4 = [], V5 = []\<rparr>],
         next_id = 4\<rparr> ''p'' []
       = (None,
          \<lparr>rows = [\<lparr>ID = 2, PType = ''g'', V0 = ''alice'', V1 = ''admin'', V2 = [],
                     V3 = [], V4 = [], V5 = []\<rparr>],
           next_id = 4\<rparr>)"
  using RemovePolicyCtx_empty_rule [of "''p''" no_faults
        "\<lparr>rows = [\<lparr>ID = 1, PType = ''p'', V0 = ''alice'', V1 = ''data1'', V2 = ''read'',
                   V3 = [], V4 = [], V5 = []\<rparr>,
                 \<lparr>ID = 2, PType = ''g'', V0 = ''alice'', V1 = ''admin'', V2 = [],
                   V3 = [], V4 = [], V5 = []\<rparr>,
                 \<lparr>ID = 3, PType = ''p'', V0 = ''bob'', V1 = ''data2'', V2 = ''write'',
                   V3 = [], V4 = [], V5 = []\<rparr>],
         next_id = 4\<rparr>"]
  by (simp add: no_faults_def)

lemma matches_set_cong: "set q = set q' \<Longrightarrow> matches q r = matches q' r"
  by (simp add: matches_def list_all_iff)

section \<open>Filtered replace on the three-row table\<close>

lemma newCasbinPolicy_record:
  "newCasbinPolicy ptype rule =
     \<lparr>ID = 0, PType = ptype,
      V0 = (take 6 rule @ replicate (6 - length rule) []) ! 0,
      V1 = (take 6 rule @ replicate (6 - length rule) []) ! 1,
      V2 = (take 6 rule @ replicate (6 - length rule) []) ! 2,
      V3 = (take 6 rule @ replicate (6 - length rule) []) ! 3,
      V4 = (take 6 rule @ replicate (6 - length rule) []) ! 4,
      V5 = (take 6 rule @ replicate (6 - length rule) []) ! 5\<rparr>"
proof -
  have "slots (newCasbinPolicy ptype rule) ! k =
      (take 6 rule @ replicate (6 - length rule) []) ! k" for k
    by (simp only: slots_newCasbinPolicy)
  from this [of 0] this [of 1] this [of 2] this [of 3] this [of 4] this [of 5]
  show ?thesis
    by (intro CasbinPolicy.equality) (simp_all add: slots_def)
qed

lemma newCasbinPolicy_3:
  "newCasbinPolicy ptype [a, b, c] =
     \<lparr>ID = 0, PType = ptype, V0 = a, V1 = b, V2 = c, V3 = [], V4 = [], V5 = []\<rparr>"
  by (simp add: newCasbinPolicy_record numeral_eq_Suc)

text \<open>
  C3. The table holds exactly the rows (alice, data1, read), (bob, data1, read) and
  (alice, data2, write), all of one rule type that is not the empty string. The filtered
  replace with the new rules (alice, data1, write) and (bob, data1, write), field index 1
  and values data1, read deletes the first two rows, inserts the two new rules and
  returns the two captured rows, each decoded by \<^verbatim>\<open>toSlice\<close> (the rule type, then the
  values), without error; afterwards the table holds exactly (alice, data2, write),
  (alice, data1, write) and (bob, data1, write).
\<close>

theorem UpdateFilteredPoliciesCtx_example:
  assumes "ptype \<noteq> []"
  shows "UpdateFilteredPoliciesCtx no_faults
     \<lparr>rows = [\<lparr>ID = i1, PType = ptype, V0 = ''alice'', V1 = ''data1'', V2 = ''read'',
                V3 = [], V4 = [], V5 = []\<rparr>,
              \<lparr>ID = i2, PType = ptype, V0 = ''bob'', V1 = ''data1'', V2 = ''read'',
                V3 = [], V4 = [], V5 = []\<rparr>,
              \<lparr>ID = i3, PType = ptype, V0 = ''alice'', V1 = ''data2'', V2 = ''write'',
                V3 = [], V4 = [], V5 = []\<rparr>],
      next_id = n\<rparr>
     ptype [[''alice'', ''data1'', ''write''], [''bob'', ''data1'', ''write'']]
     1 [''data1'', ''read'']
   = ((Some [[ptype, ''alice'', ''data1'', ''read''], [ptype, ''bob'', ''data1'', ''read'']], None),
      \<lparr>rows = [\<lparr>ID = i3, PType = ptype, V0 = ''alice'', V1 = ''data2'', V2 = ''write'',
                 V3 = [], V4 = [], V5 = []\<rparr>,
               \<lparr>ID = n, PType = ptype, V0 = ''alice'', V1 = ''data1'', V2 = ''write'',
                 V3 = [], V4 = [], V5 = []\<rparr>,
               \<lparr>ID = n + 1, PType = ptype, V0 = ''bob'', V1 = ''data1'', V2 = ''write'',
                 V3 = [], V4 = [], V5 = []\<rparr>],
       next_id = n + 2\<rparr>)"
proof -
  have q: "UpdateFilteredPolicies_queries ptype 1 [''data1'', ''read''] =
      ([(EqParam ''ptype'', [ptype]), (EqParam ''v1'', [''data1'']), (EqParam ''v2'', [''read''])],
       [(EqParam ''ptype'', [ptype]), (EqParam ''v1'', [''data1'']), (EqParam ''v2'', [''read''])])"
    by (simp add: UpdateFilteredPolicies_queries_clauses upt_0_6 slot_clauses_def
        spec_slot_constraint_def sprintf_v_small)
  show ?thesis
    using assms
    by (simp add: UpdateFilteredPoliciesCtx_def q no_faults_def BeginTx_def Select_Scan_def
        Delete_Exec_def Insert_Exec_def Commit_def matches_def column_def newCasbinPolicy_3
        unique_key_def toSlice_def nonEmptyFields_filter)
qed


theorem UpdateFilteredPoliciesCtx_example_witness:
  "''p'' \<noteq> [] \<and>
   UpdateFilteredPoliciesCtx no_faults
     \<lparr>rows = [\<lparr>ID = 1, PType = ''p'', V0 = ''alice'', V1 = ''data1'', V2 = ''read'',
                V3 = [], V4 = [], V5 = []\<rparr>,
              \<lparr>ID = 2, PType = ''p'', V0 = ''bob'', V1 = ''data1'', V2 = ''read'',
                V3 = [], V4 = [], V5 = []\<rparr>,
              \<lparr>ID = 3, PType = ''p'', V0 = ''alice'', V1 = ''data2'', V2 = ''write'',
                V3 = [], V4 = [], V5 = []\<rparr>],
      next_id = 4\<rparr>
     ''p'' [[''alice'', ''data1'', ''write''], [''bob'', ''data1'', ''write'']]
     1 [''data1'', ''read'']
   = ((Some [[''p'', ''alice'', ''data1'', ''read''], [''p'', ''bob'', ''data1'', ''read'']], None),
      \<lparr>rows = [\<lparr>ID = 3, PType = ''p'', V0 = ''alice'', V1 = ''data2'', V2 = ''write'',
                 V3 = [], V4 = [], V5 = []\<rparr>,
               \<lparr>ID = 4, PType = ''p'', V0 = ''alice'', V1 = ''data1'', V2 = ''write'',
                 V3 = [], V4 = [], V5 = []\<rparr>,
               \<lparr>ID = 5, PType = ''p'', V0 = ''bob'', V1 = ''data1'', V2 = ''write'',
                 V3 = [], V4 = [], V5 = []\<rparr>],
       next_id = 6\<rparr>)"
  using UpdateFilteredPoliciesCtx_example [of "''p''" 1 2 3 4]
  by simp

section \<open>Save\<close>

lemma ID_assign_ids: "map (\<lambda>r. r\<lparr>ID := 0\<rparr>) (assign_ids n ps) = map (\<lambda>r. r\<lparr>ID := 0\<rparr>) ps"
  by (induction ps arbitrary: n) simp_all

lemma ID_SavePolicy_records: "map (\<lambda>r. r\<lparr>ID := 0\<rparr>) (SavePolicy_records m) = SavePolicy_records m"
proof -
  have "r \<in> set (SavePolicy_records m) \<Longrightarrow> ID r = 0" for r
    by (auto simp: SavePolicy_records_def)
  then have "r \<in> set (SavePolicy_records m) \<Longrightarrow> r\<lparr>ID := 0\<rparr> = r" for r
    by (metis CasbinPolicy.surjective CasbinPolicy.update_convs(1))
  then show ?thesis by (simp add: map_idI)
qed

text \<open>
  C4 (as amended). For every prior table and every model: when the save returns no error,
  the rows of the table are exactly the encodings of the rules passed in (those of
  section p, then those of section g), each with the identity the engine gave it,
  whatever the table held before. The truncate comes first and is not undone: once it has
  succeeded, the table afterwards holds the new rows when the insert succeeded and is
  empty when the insert failed. When the truncate itself fails, the table is unchanged and
  that error is returned.
\<close>

theorem SavePolicyCtx_replaces_table:
  "(fst (SavePolicyCtx flt d m) = None \<longrightarrow>
      map (\<lambda>r. r\<lparr>ID := 0\<rparr>) (rows (snd (SavePolicyCtx flt d m))) = SavePolicy_records m)
   \<and> (flt 0 = None \<longrightarrow>
      rows (snd (SavePolicyCtx flt d m)) =
        (if fst (SavePolicyCtx flt d m) = None
         then assign_ids (next_id d) (SavePolicy_records m) else []))
   \<and> (flt 0 \<noteq> None \<longrightarrow> SavePolicyCtx flt d m = (flt 0, d))"
  by (auto simp: SavePolicyCtx_def savePolicyRecords_def refreshTable_def Truncate_Exec_def
      Insert_Exec_def ID_assign_ids ID_SavePolicy_records split: option.splits)


text \<open>
  The save as the claim states it, for every model, fails on a model with two rules that
  differ only after their sixth value: both have the same encoding, the unique index
  rejects the insert, and the table is left empty although two rules were passed in.
\<close>

theorem SavePolicyCtx_replaces_table_counterexample:
  "SavePolicyCtx no_faults
     \<lparr>rows = [\<lparr>ID = 1, PType = ''p'', V0 = ''alice'', V1 = ''data1'', V2 = ''read'',
                V3 = [], V4 = [], V5 = []\<rparr>],
      next_id = 2\<rparr>
     [(''p'', [(''p'', [[''a'', ''b'', ''c'', ''d'', ''e'', ''f'', ''g''],
                       [''a'', ''b'', ''c'', ''d'', ''e'', ''f'', ''h'']])])]
   = (Some UniqueViolation, \<lparr>rows = [], next_id = 2\<rparr>)
   \<and> SavePolicy_records
       [(''p'', [(''p'', [[''a'', ''b'', ''c'', ''d'', ''e'', ''f'', ''g''],
                         [''a'', ''b'', ''c'', ''d'', ''e'', ''f'', ''h'']])])]
     = [\<lparr>ID = 0, PType = ''p'', V0 = ''a'', V1 = ''b'', V2 = ''c'',
         V3 = ''d'', V4 = ''e'', V5 = ''f''\<rparr>,
        \<lparr>ID = 0, PType = ''p'', V0 = ''a'', V1 = ''b'', V2 = ''c'',
         V3 = ''d'', V4 = ''e'', V5 = ''f''\<rparr>]"
  by (simp add: SavePolicyCtx_def savePolicyRecords_def refreshTable_def Truncate_Exec_def
      Insert_Exec_def SavePolicy_records_def model_section_def no_faults_def
      newCasbinPolicy_record unique_key_def)

theorem SavePolicyCtx_replaces_table_witness:
  "SavePolicyCtx no_faults
     \<lparr>rows = [\<lparr>ID = 1, PType = ''p'', V0 = ''carol'', V1 = ''data9'', V2 = ''read'',
                V3 = [], V4 = [], V5 = []\<rparr>],
      next_id = 2\<rparr>
     [(''p'', [(''p'', [[''alice'', ''data'', ''write'']])]), (''g'', [(''g'', [[''bob'', ''admin'']])])]
   = (None,
      \<lparr>rows = [\<lparr>ID = 2, PType = ''p'', V0 = ''alice'', V1 = ''data'', V2 = ''write'',
                 V3 = [], V4 = [], V5 = []\<rparr>,
               \<lparr>ID = 3, PType = ''g'', V0 = ''bob'', V1 = ''admin'', V2 = [],
                 V3 = [], V4 = [], V5 = []\<rparr>],
       next_id = 4\<rparr>)
   \<and> map (\<lambda>r. r\<lparr>ID := 0\<rparr>)
       (rows (snd (SavePolicyCtx no_faults
          \<lparr>rows = [\<lparr>ID = 1, PType = ''p'', V0 = ''carol'', V1 = ''data9'', V2 = ''read'',
                     V3 = [], V4 = [], V5 = []\<rparr>],
           next_id = 2\<rparr>
          [(''p'', [(''p'', [[''alice'', ''data'', ''write'']])]),
           (''g'', [(''g'', [[''bob'', ''admin'']])])])))
     = [\<lparr>ID = 0, PType = ''p'', V0 = ''alice'', V1 = ''data'', V2 = ''write'',
         V3 = [], V4 = [], V5 = []\<rparr>,
        \<lparr>ID = 0, PType = ''g'', V0 = ''bob'', V1 = ''admin'', V2 = [],
         V3 = [], V4 = [], V5 = []\<rparr>]"
proof -
  let ?d = "\<lparr>rows = [\<lparr>ID = 1, PType = ''p'', V0 = ''carol'', V1 = ''data9'', V2 = ''read'',
                V3 = [], V4 = [], V5 = []\<rparr>],
      next_id = 2\<rparr>"
  let ?m = "[(''p'', [(''p'', [[''alice'', ''data'', ''write'']])]),
             (''g'', [(''g'', [[''bob'', ''admin'']])])]"
  have run: "SavePolicyCtx no_faults ?d ?m
   = (None,
      \<lparr>rows = [\<lparr>ID = 2, PType = ''p'', V0 = ''alice'', V1 = ''data'', V2 = ''write'',
                 V3 = [], V4 = [], V5 = []\<rparr>,
               \<lparr>ID = 3, PType = ''g'', V0 = ''bob'', V1 = ''admin'', V2 = [],
                 V3 = [], V4 = [], V5 = []\<rparr>],
       next_id = 4\<rparr>)"
    by (simp add: SavePolicyCtx_def savePolicyRecords_def refreshTable_def Truncate_Exec_def
      Insert_Exec_def SavePolicy_records_def model_section_def no_faults_def
      newCasbinPolicy_record unique_key_def numeral_eq_Suc)
  have recs: "SavePolicy_records ?m =
      [\<lparr>ID = 0, PType = ''p'', V0 = ''alice'', V1 = ''data'', V2 = ''write'',
         V3 = [], V4 = [], V5 = []\<rparr>,
        \<lparr>ID = 0, PType = ''g'', V0 = ''bob'', V1 = ''admin'', V2 = [],
         V3 = [], V4 = [], V5 = []\<rparr>]"
    by (simp add: SavePolicy_records_def model_section_def newCasbinPolicy_record numeral_eq_Suc)
  from SavePolicyCtx_replaces_table [of no_faults ?d ?m] run recs
  show ?thesis by simp
qed


section \<open>Batches are all or nothing\<close>

lemma RunInTx_unchanged:
  "fst (RunInTx begin_fault commit_fault fn d) \<noteq> Returned None \<Longrightarrow>
   snd (RunInTx begin_fault commit_fault fn d) = d"
  by (auto simp: RunInTx_def BeginTx_def Rollback_def Commit_def
      split: option.splits sum.splits prod.splits outcome.splits)

lemma AddPoliciesCtx_unchanged:
  "fst (AddPoliciesCtx flt d ptype rules) \<noteq> None \<Longrightarrow> snd (AddPoliciesCtx flt d ptype rules) = d"
  by (auto simp: AddPoliciesCtx_def split: sum.splits)

lemma UpdateFilteredPoliciesCtx_unchanged:
  "snd (fst (UpdateFilteredPoliciesCtx flt d ptype newRules fieldIndex fieldValues)) \<noteq> None \<Longrightarrow>
   snd (UpdateFilteredPoliciesCtx flt d ptype newRules fieldIndex fieldValues) = d"
  by (auto simp: UpdateFilteredPoliciesCtx_def BeginTx_def Commit_def rollback_and_return_def
      Rollback_def Let_def split: option.splits sum.splits prod.splits)

text \<open>
  C5. For batch add, batch remove, batch update and filtered replace: whenever the
  operation does not succeed (it returns an error, or the batch update panics), under
  every fault script, the table afterwards is the table before the call. In particular a
  batch add whose insert is rejected because of one of its rules inserts none of them.
\<close>

theorem batch_failure_leaves_table_unchanged:
  "(fst (AddPoliciesCtx flt d ptype rules) \<noteq> None \<longrightarrow>
      snd (AddPoliciesCtx flt d ptype rules) = d)
   \<and> (fst (RemovePoliciesCtx flt d ptype rules) \<noteq> Returned None \<longrightarrow>
      snd (RemovePoliciesCtx flt d ptype rules) = d)
   \<and> (fst (UpdatePoliciesCtx flt d ptype oldRules newRules) \<noteq> Returned None \<longrightarrow>
      snd (UpdatePoliciesCtx flt d ptype oldRules newRules) = d)
   \<and> (snd (fst (UpdateFilteredPoliciesCtx flt d ptype newRules fieldIndex fieldValues)) \<noteq> None \<longrightarrow>
      snd (UpdateFilteredPoliciesCtx flt d ptype newRules fieldIndex fieldValues) = d)"
  using AddPoliciesCtx_unchanged UpdateFilteredPoliciesCtx_unchanged
  by (simp add: RemovePoliciesCtx_def UpdatePoliciesCtx_def RunInTx_unchanged)

theorem batch_failure_leaves_table_unchanged_witness:
  "fst (AddPoliciesCtx no_faults
     \<lparr>rows = [\<lparr>ID = 1, PType = ''p'', V0 = ''alice'', V1 = ''data1'', V2 = ''read'',
                V3 = [], V4 = [], V5 = []\<rparr>,
              \<lparr>ID = 2, PType = ''p'', V0 = ''bob'', V1 = ''data1'', V2 = ''read'',
                V3 = [], V4 = [], V5 = []\<rparr>,
              \<lparr>ID = 3, PType = ''p'', V0 = ''alice'', V1 = ''data2'', V2 = ''write'',
                V3 = [], V4 = [], V5 = []\<rparr>],
      next_id = 4\<rparr>
     ''p'' [[''bob'', ''data2'', ''write''], [''alice'', ''data1'', ''read'']])
     = Some UniqueViolation
   \<and> snd (AddPoliciesCtx no_faults
     \<lparr>rows = [\<lparr>ID = 1, PType = ''p'', V0 = ''alice'', V1 = ''data1'', V2 = ''read'',
                V3 = [], V4 = [], V5 = []\<rparr>,
              \<lparr>ID = 2, PType = ''p'', V0 = ''bob'', V1 = ''data1'', V2 = ''read'',
                V3 = [], V4 = [], V5 = []\<rparr>,
              \<lparr>ID = 3, PType = ''p'', V0 = ''alice'', V1 = ''data2'', V2 = ''write'',
                V3 = [], V4 = [], V5 = []\<rparr>],
      next_id = 4\<rparr>
     ''p'' [[''bob'', ''data2'', ''write''], [''alice'', ''data1'', ''read'']])
     = \<lparr>rows = [\<lparr>ID = 1, PType = ''p'', V0 = ''alice'', V1 = ''data1'', V2 = ''read'',
                V3 = [], V4 = [], V5 = []\<rparr>,
              \<lparr>ID = 2, PType = ''p'', V0 = ''bob'', V1 = ''data1'', V2 = ''read'',
                V3 = [], V4 = [], V5 = []\<rparr>,
              \<lparr>ID = 3, PType = ''p'', V0 = ''alice'', V1 = ''data2'', V2 = ''write'',
                V3 = [], V4 = [], V5 = []\<rparr>],
      next_id = 4\<rparr>
   \<and> fst (RemovePoliciesCtx (\<lambda>k. if k = 2 then Some (Fault 7) else None)
     \<lparr>rows = [\<lparr>ID = 1, PType = ''p'', V0 = ''alice'', V1 = ''data1'', V2 = ''read'',
                V3 = [], V4 = [], V5 = []\<rparr>,
              \<lparr>ID = 2, PType = ''p'', V0 = ''bob'', V1 = ''data1'', V2 = ''read'',
                V3 = [], V4 = [], V5 = []\<rparr>,
              \<lparr>ID = 3, PType = ''p'', V0 = ''alice'', V1 = ''data2'', V2 = ''write'',
                V3 = [], V4 = [], V5 = []\<rparr>],
      next_id = 4\<rparr>
     ''p'' [[''alice'', ''data1'', ''read''], [''bob'', ''data1'', ''read'']])
     = Returned (Some (Fault 7))
   \<and> snd (RemovePoliciesCtx (\<lambda>k. if k = 2 then Some (Fault 7) else None)
     \<lparr>rows = [\<lparr>ID = 1, PType = ''p'', V0 = ''alice'', V1 = ''data1'', V2 = ''read'',
                V3 = [], V4 = [], V5 = []\<rparr>,
              \<lparr>ID = 2, PType = ''p'', V0 = ''bob'', V1 = ''data1'', V2 = ''read'',
                V3 = [], V4 = [], V5 = []\<rparr>,
              \<lparr>ID = 3, PType = ''p'', V0 = ''alice'', V1 = ''data2'', V2 = ''write'',
                V3 = [], V4 = [], V5 = []\<rparr>],
      next_id = 4\<rparr>
     ''p'' [[''alice'', ''data1'', ''read''], [''bob'', ''data1'', ''read'']])
     = \<lparr>rows = [\<lparr>ID = 1, PType = ''p'', V0 = ''alice'', V1 = ''data1'', V2 = ''read'',
                V3 = [], V4 = [], V5 = []\<rparr>,
              \<lparr>ID = 2, PType = ''p'', V0 = ''bob'', V1 = ''data1'', V2 = ''read'',
                V3 = [], V4 = [], V5 = []\<rparr>,
              \<lparr>ID = 3, PType = ''p'', V0 = ''alice'', V1 = ''data2'', V2 = ''write'',
                V3 = [], V4 = [], V5 = []\<rparr>],
      next_id = 4\<rparr>
   \<and> fst (UpdatePoliciesCtx no_faults
     \<lparr>rows = [\<lparr>ID = 1, PType = ''p'', V0 = ''alice'', V1 = ''data1'', V2 = ''read'',
                V3 = [], V4 = [], V5 = []\<rparr>,
              \<lparr>ID = 2, PType = ''p'', V0 = ''bob'', V1 = ''data1'', V2 = ''read'',
                V3 = [], V4 = [], V5 = []\<rparr>,
              \<lparr>ID = 3, PType = ''p'', V0 = ''alice'', V1 = ''data2'', V2 = ''write'',
                V3 = [], V4 = [], V5 = []\<rparr>],
      next_id = 4\<rparr>
     ''p'' [[''alice'', ''data1'', ''read''], [''bob'', ''data1'', ''read'']]
           [[''alice'', ''data1'', ''write''], [''alice'', ''data2'', ''write'']])
     = Returned (Some UniqueViolation)
   \<and> snd (UpdatePoliciesCtx no_faults
     \<lparr>rows = [\<lparr>ID = 1, PType = ''p'', V0 = ''alice'', V1 = ''data1'', V2 = ''read'',
                V3 = [], V4 = [], V5 = []\<rparr>,
              \<lparr>ID = 2, PType = ''p'', V0 = ''bob'', V1 = ''data1'', V2 = ''read'',
                V3 = [], V4 = [], V5 = []\<rparr>,
              \<lparr>ID = 3, PType = ''p'', V0 = ''alice'', V1 = ''data2'', V2 = ''write'',
                V3 = [], V4 = [], V5 = []\<rparr>],
      next_id = 4\<rparr>
     ''p'' [[''alice'', ''data1'', ''read''], [''bob'', ''data1'', ''read'']]
           [[''alice'', ''data1'', ''write''], [''alice'', ''data2'', ''write'']])
     = \<lparr>rows = [\<lparr>ID = 1, PType = ''p'', V0 = ''alice'', V1 = ''data1'', V2 = ''read'',
                V3 = [], V4 = [], V5 = []\<rparr>,
              \<lparr>ID = 2, PType = ''p'', V0 = ''bob'', V1 = ''data1'', V2 = ''read'',
                V3 = [], V4 = [], V5 = []\<rparr>,
              \<lparr>ID = 3, PType = ''p'', V0 = ''alice'', V1 = ''data2'', V2 = ''write'',
                V3 = [], V4 = [], V5 = []\<rparr>],
      next_id = 4\<rparr>
   \<and> fst (UpdateFilteredPoliciesCtx no_faults
     \<lparr>rows = [\<lparr>ID = 1, PType = ''p'', V0 = ''alice'', V1 = ''data1'', V2 = ''read'',
                V3 = [], V4 = [], V5 = []\<rparr>,
              \<lparr>ID = 2, PType = ''p'', V0 = ''bob'', V1 = ''data1'', V2 = ''read'',
                V3 = [], V4 = [], V5 = []\<rparr>,
              \<lparr>ID = 3, PType = ''p'', V0 = ''alice'', V1 = ''data2'', V2 = ''write'',
                V3 = [], V4 = [], V5 = []\<rparr>],
      next_id = 4\<rparr>
     ''p'' [[''alice'', ''data2'', ''write'']] 1 [''data1'', ''read''])
     = (None, Some UniqueViolation)
   \<and> snd (UpdateFilteredPoliciesCtx no_faults
     \<lparr>rows = [\<lparr>ID = 1, PType = ''p'', V0 = ''alice'', V1 = ''data1'', V2 = ''read'',
                V3 = [], V4 = [], V5 = []\<rparr>,
              \<lparr>ID = 2, PType = ''p'', V0 = ''bob'', V1 = ''data1'', V2 = ''read'',
                V3 = [], V4 = [], V5 = []\<rparr>,
              \<lparr>ID = 3, PType = ''p'', V0 = ''alice'', V1 = ''data2'', V2 = ''write'',
                V3 = [], V4 = [], V5 = []\<rparr>],
      next_id = 4\<rparr>
     ''p'' [[''alice'', ''data2'', ''write'']] 1 [''data1'', ''read''])
     = \<lparr>rows = [\<lparr>ID = 1, PType = ''p'', V0 = ''alice'', V1 = ''data1'', V2 = ''read'',
                V3 = [], V4 = [], V5 = []\<rparr>,
              \<lparr>ID = 2, PType = ''p'', V0 = ''bob'', V1 = ''data1'', V2 = ''read'',
                V3 = [], V4 = [], V5 = []\<rparr>,
              \<lparr>ID = 3, PType = ''p'', V0 = ''alice'', V1 = ''data2'', V2 = ''write'',
                V3 = [], V4 = [], V5 = []\<rparr>],
      next_id = 4\<rparr>"
proof -
  let ?d = "\<lparr>rows = [\<lparr>ID = 1, PType = ''p'', V0 = ''alice'', V1 = ''data1'', V2 = ''read'',
                V3 = [], V4 = [], V5 = []\<rparr>,
              \<lparr>ID = 2, PType = ''p'', V0 = ''bob'', V1 = ''data1'', V2 = ''read'',
                V3 = [], V4 = [], V5 = []\<rparr>,
              \<lparr>ID = 3, PType = ''p'', V0 = ''alice'', V1 = ''data2'', V2 = ''write'',
                V3 = [], V4 = [], V5 = []\<rparr>],
      next_id = 4\<rparr>"
  let ?flt = "\<lambda>k::nat. if k = 2 then Some (Fault 7) else None"
  have q: "UpdateFilteredPolicies_queries ''p'' 1 [''data1'', ''read''] =
      ([(EqParam ''ptype'', [''p'']), (EqParam ''v1'', [''data1'']), (EqParam ''v2'', [''read''])],
       [(EqParam ''ptype'', [''p'']), (EqParam ''v1'', [''data1'']), (EqParam ''v2'', [''read''])])"
    by (simp add: UpdateFilteredPolicies_queries_clauses upt_0_6 slot_clauses_def
        spec_slot_constraint_def sprintf_v_small)
  have a: "fst (AddPoliciesCtx no_faults ?d
     ''p'' [[''bob'', ''data2'', ''write''], [''alice'', ''data1'', ''read'']])
     = Some UniqueViolation"
    by (simp add: AddPoliciesCtx_def Insert_Exec_def no_faults_def newCasbinPolicy_3
        unique_key_def)
  have r: "fst (RemovePoliciesCtx ?flt ?d
     ''p'' [[''alice'', ''data1'', ''read''], [''bob'', ''data1'', ''read'']])
     = Returned (Some (Fault 7))"
    by (simp add: RemovePoliciesCtx_def RunInTx_def BeginTx_def Rollback_def
        deleteRecordInTx_def delete_def Delete_Exec_def delete_loop_clauses
        filterValuesWithKey_entries upt_0_6 slot_def sprintf_v_small Where_def matches_def
        column_def newCasbinPolicy_3)
  have u: "fst (UpdatePoliciesCtx no_faults ?d
     ''p'' [[''alice'', ''data1'', ''read''], [''bob'', ''data1'', ''read'']]
           [[''alice'', ''data1'', ''write''], [''alice'', ''data2'', ''write'']])
     = Returned (Some UniqueViolation)"
    by (simp add: UpdatePoliciesCtx_def RunInTx_def BeginTx_def Rollback_def no_faults_def
        UpdatePolicies_loop.simps updateRecordInTx_def update_def Update_Exec_def
        update_loop_clauses filterValuesWithKey_entries upt_0_6 slot_def sprintf_v_small
        Where_def matches_def column_def
        newCasbinPolicy_3 set_columns_def unique_key_def)
  have f: "fst (UpdateFilteredPoliciesCtx no_faults ?d
     ''p'' [[''alice'', ''data2'', ''write'']] 1 [''data1'', ''read''])
     = (None, Some UniqueViolation)"
    by (simp add: UpdateFilteredPoliciesCtx_def q no_faults_def BeginTx_def Select_Scan_def
        Delete_Exec_def Insert_Exec_def rollback_and_return_def Rollback_def matches_def
        column_def newCasbinPolicy_3 unique_key_def)
  from a r u f
    batch_failure_leaves_table_unchanged [where flt = no_faults and d = ?d and ptype = "''p''"
      and rules = "[[''bob'', ''data2'', ''write''], [''alice'', ''data1'', ''read'']]"
      and oldRules = "[[''alice'', ''data1'', ''read''], [''bob'', ''data1'', ''read'']]"
      and newRules = "[[''alice'', ''data1'', ''write''], [''alice'', ''data2'', ''write'']]"]
    batch_failure_leaves_table_unchanged [where flt = ?flt and d = ?d and ptype = "''p''"
      and rules = "[[''alice'', ''data1'', ''read''], [''bob'', ''data1'', ''read'']]"]
    batch_failure_leaves_table_unchanged [where flt = no_faults and d = ?d and ptype = "''p''"
      and newRules = "[[''alice'', ''data2'', ''write'']]" and fieldIndex = 1
      and fieldValues = "[''data1'', ''read'']"]
  show ?thesis by simp
qed

section \<open>The index into the new rules\<close>

lemma UpdatePolicies_loop_no_panic:
  "length oldPolicies \<le> length newPolicies \<Longrightarrow>
   fst (UpdatePolicies_loop flt oldPolicies newPolicies i tx) \<noteq> Panicked"
proof (induction flt oldPolicies newPolicies i tx rule: UpdatePolicies_loop.induct)
  case (1 flt oldPolicies newPolicies i tx)
  show ?case
  proof (cases "i < length oldPolicies")
    case False
    then show ?thesis by (subst UpdatePolicies_loop.simps) simp
  next
    case True
    with "1.prems" have inb: "i < length newPolicies" by simp
    show ?thesis
    proof (cases "updateRecordInTx (flt (i + 1)) tx (oldPolicies ! i) (newPolicies ! i)")
      case (Pair err tx')
      show ?thesis
      proof (cases err)
        case None
        with "1.IH" [OF True inb Pair [symmetric]] "1.prems" True inb Pair show ?thesis
          by (subst UpdatePolicies_loop.simps) simp
      next
        case (Some e)
        with True inb Pair show ?thesis
          by (subst UpdatePolicies_loop.simps) simp
      qed
    qed
  qed
qed

lemma RunInTx_Panicked:
  "fst (RunInTx begin_fault commit_fault fn d) = Panicked \<Longrightarrow> fst (fn d) = Panicked"
  by (auto simp: RunInTx_def BeginTx_def Rollback_def Commit_def
      split: option.splits sum.splits prod.splits outcome.splits)

text \<open>
  C10. Batch update reads the new rules at the index of the old rules. When there are
  at least as many new rules as old rules the call never panics, under every fault
  script and table; with one old rule and no new rule the read \<^verbatim>\<open>newPolicies[0]\<close> is out
  of range and the call panics instead of returning an error (the transaction is rolled
  back).
\<close>

theorem UpdatePoliciesCtx_index_panic:
  "(length oldRules \<le> length newRules \<longrightarrow>
      fst (UpdatePoliciesCtx flt d ptype oldRules newRules) \<noteq> Panicked)
   \<and> UpdatePoliciesCtx no_faults
        \<lparr>rows = [\<lparr>ID = 1, PType = ''p'', V0 = ''alice'', V1 = ''data1'', V2 = ''read'',
                   V3 = [], V4 = [], V5 = []\<rparr>],
         next_id = 2\<rparr>
        ''p'' [[''alice'', ''data1'', ''read'']] []
      = (Panicked,
         \<lparr>rows = [\<lparr>ID = 1, PType = ''p'', V0 = ''alice'', V1 = ''data1'', V2 = ''read'',
                   V3 = [], V4 = [], V5 = []\<rparr>],
          next_id = 2\<rparr>)"
proof -
  have a: "length oldRules \<le> length newRules \<Longrightarrow>
      fst (UpdatePoliciesCtx flt d ptype oldRules newRules) \<noteq> Panicked"
  proof
    assume le: "length oldRules \<le> length newRules"
    assume "fst (UpdatePoliciesCtx flt d ptype oldRules newRules) = Panicked"
    then have "fst (UpdatePolicies_loop flt (map (newCasbinPolicy ptype) oldRules)
        (map (newCasbinPolicy ptype) newRules) 0 d) = Panicked"
      unfolding UpdatePoliciesCtx_def Let_def by (rule RunInTx_Panicked)
    moreover have "fst (UpdatePolicies_loop flt (map (newCasbinPolicy ptype) oldRules)
        (map (newCasbinPolicy ptype) newRules) 0 d) \<noteq> Panicked"
      using le by (intro UpdatePolicies_loop_no_panic) simp
    ultimately show False by simp
  qed
  have b: "UpdatePoliciesCtx no_faults
        \<lparr>rows = [\<lparr>ID = 1, PType = ''p'', V0 = ''alice'', V1 = ''data1'', V2 = ''read'',
                   V3 = [], V4 = [], V5 = []\<rparr>],
         next_id = 2\<rparr>
        ''p'' [[''alice'', ''data1'', ''read'']] []
      = (Panicked,
         \<lparr>rows = [\<lparr>ID = 1, PType = ''p'', V0 = ''alice'', V1 = ''data1'', V2 = ''read'',
                   V3 = [], V4 = [], V5 = []\<rparr>],
          next_id = 2\<rparr>)"
    by (simp add: UpdatePoliciesCtx_def RunInTx_def BeginTx_def Rollback_def no_faults_def
        UpdatePolicies_loop.simps)
  from a b show ?thesis by blast
qed


theorem UpdatePoliciesCtx_index_panic_witness:
  "length [[''alice'', ''data1'', ''read'']] \<le> length [[''alice'', ''data1'', ''write'']]
   \<and> fst (UpdatePoliciesCtx no_faults
        \<lparr>rows = [\<lparr>ID = 1, PType = ''p'', V0 = ''alice'', V1 = ''data1'', V2 = ''read'',
                   V3 = [], V4 = [], V5 = []\<rparr>],
         next_id = 2\<rparr>
        ''p'' [[''alice'', ''data1'', ''read'']] [[''alice'', ''data1'', ''write'']]) \<noteq> Panicked"
  using UpdatePoliciesCtx_index_panic [of "[[''alice'', ''data1'', ''read'']]"
      "[[''alice'', ''data1'', ''write'']]" no_faults
      "\<lparr>rows = [\<lparr>ID = 1, PType = ''p'', V0 = ''alice'', V1 = ''data1'', V2 = ''read'',
                   V3 = [], V4 = [], V5 = []\<rparr>],
         next_id = 2\<rparr>" "''p''"]
  by simp

section \<open>Running the bootstrap twice\<close>

lemma createTable_failure_rolls_back:
  "fst (createTable flt s) \<noteq> None \<Longrightarrow> snd (createTable flt s) = s"
  by (auto simp: createTable_def BeginTx_def Rollback_def Commit_def
      split: sum.splits option.splits)

text \<open>
  C8. On an empty schema \<^verbatim>\<open>createTable\<close> creates the table and the two indexes. Run
  again on the schema it produced, the table step is skipped, the creation of the unique
  index is rejected because the index exists, the transaction is rolled back and the
  error is returned: \<^verbatim>\<open>NewAdapter\<close> fails on a database that is already set up, unless
  the bootstrap is disabled.
\<close>

theorem createTable_twice:
  "createTable no_faults \<lparr>tables = [], indexes = []\<rparr>
     = (None, \<lparr>tables = [''casbin_policies''],
               indexes = [''unique_casbin_policy'', ''idx_casbin_ptype'']\<rparr>)
   \<and> createTable no_faults
       \<lparr>tables = [''casbin_policies''], indexes = [''unique_casbin_policy'', ''idx_casbin_ptype'']\<rparr>
     = (Some (Join [AlreadyExists ''unique_casbin_policy'']),
        \<lparr>tables = [''casbin_policies''],
         indexes = [''unique_casbin_policy'', ''idx_casbin_ptype'']\<rparr>)
   \<and> NewAdapter no_faults
       \<lparr>tables = [''casbin_policies''], indexes = [''unique_casbin_policy'', ''idx_casbin_ptype'']\<rparr>
       []
     = ((None, Some (Join [AlreadyExists ''unique_casbin_policy''])),
        \<lparr>tables = [''casbin_policies''],
         indexes = [''unique_casbin_policy'', ''idx_casbin_ptype'']\<rparr>)
   \<and> NewAdapter no_faults
       \<lparr>tables = [''casbin_policies''], indexes = [''unique_casbin_policy'', ''idx_casbin_ptype'']\<rparr>
       [DisableAutoCreateTable]
     = ((Some \<lparr>notCreateTables = True\<rparr>, None),
        \<lparr>tables = [''casbin_policies''],
         indexes = [''unique_casbin_policy'', ''idx_casbin_ptype'']\<rparr>)"
  by (simp add: createTable_def NewAdapter_def DisableAutoCreateTable_def BeginTx_def
      CreateTable_IfNotExists_def CreateIndex_def Rollback_def Commit_def errors_Join_def
      no_faults_def List.map_filter_simps)


end
